theory Spec2Isabelle
  imports Complex_Main "HOL-Library.Word"
begin

section \<open>The FRN session object (QsoFrn.cpp)\<close>

text \<open>
  The session is one C++ object driven by callbacks of a single-threaded event loop.
  It is modelled as a record of its member variables; every member function takes the
  record and returns the updated one. Calls on the collaborators (the TCP client, the
  audio source and sink, the \<open>stateChange\<close> signal, the watchdog timer's \<open>reset\<close>)
  are appended, in call order, to the field \<open>trace\<close>. Output on \<open>cout\<close> and
  \<open>cerr\<close> is not modelled.
\<close>

subsection \<open>Enumerations\<close>

datatype State =
    STATE_DISCONNECTED
  | STATE_CONNECTING
  | STATE_CONNECTED
  | STATE_LOGGING_IN
  | STATE_LOGGING_IN_2
  | STATE_LOGGED_IN
  | STATE_ERROR

datatype Request = RQ_RX0 | RQ_TX0 | RQ_TX1 | RQ_P

text \<open>
  The response codes that \<open>handleResponse\<close> names. \<open>DT_OTHER\<close> stands for every
  value of the leading byte that reaches the \<open>default:\<close> branch of its switch.
\<close>

datatype Response =
    DT_IDLE
  | DT_DO_TX
  | DT_VOICE_BUFFER
  | DT_CLIENT_LIST
  | DT_TEXT_MESSAGE
  | DT_NET_NAMES
  | DT_ADMIN_LIST
  | DT_ACCESS_LIST
  | DT_BLOCK_LIST
  | DT_MUTE_LIST
  | DT_ACCESS_MODE
  | DT_OTHER

text \<open>
  The disconnect reasons that \<open>onDisconnected\<close> names; \<open>DR_OTHER\<close> stands for
  every reason that reaches the \<open>default:\<close> branch.
\<close>

datatype DisconnectReason =
    DR_HOST_NOT_FOUND
  | DR_REMOTE_DISCONNECTED
  | DR_SYSTEM_ERROR
  | DR_RECV_BUFFER_OVERFLOW
  | DR_ORDERED_DISCONNECT
  | DR_OTHER

subsection \<open>Calls on the collaborators\<close>

text \<open>
  A byte is a \<^typ>\<open>char\<close>, so that a control token (a \<open>std::string\<close>) and a
  binary payload (an \<open>unsigned char\<close> array) are both byte lists. A PCM sample is a
  \<open>short\<close>, a 16-bit word read with \<^const>\<open>sint\<close>. A sample at the audio boundary is a
  \<open>float\<close>; it is modelled by the real number it denotes (the product
  \<open>32767.0 * sample\<close> is computed in \<open>double\<close>, where it is exact for every finite
  \<open>float\<close>, so the model loses nothing on finite samples; NaN is not modelled).
  The retry counter is a C++ \<open>int\<close>, a 32-bit word read with \<^const>\<open>sint\<close>.
\<close>

type_synonym bytes = "char list"
type_synonym short = "16 word"
type_synonym c_int = "32 word"

datatype effect =
    TcpConnect string string
  | TcpDisconnect
  | TcpWrite bytes
  | SinkWriteSamples "real list"
  | SourceAllSamplesFlushed
  | SourceResumeOutput
  | StateChange State
  | ConTimeoutReset

subsection \<open>Constants of the header and the codec library\<close>

text \<open>
  \<open>QsoFrn.h\<close> and the GSM library are not part of the sources at hand. The four
  integer constants, the numbering of the response codes and the two codec primitives are
  therefore parameters of the model. \<open>gsm_encode\<close> takes the codec handle and the PCM
  block it reads and returns the new handle and the bytes it writes at \<open>dst\<close>;
  \<open>gsm_decode\<close> takes the handle and the bytes at \<open>src\<close> and returns the new
  handle and the samples it writes at \<open>dst\<close>.
\<close>

record 'g params =
  MAX_CONNECT_RETRY_CNT :: c_int
  FRAME_COUNT :: int
  PCM_FRAME_SIZE :: int
  GSM_FRAME_SIZE :: int
  response_of :: "char \<Rightarrow> Response"
  gsm_encode :: "'g \<Rightarrow> short list \<Rightarrow> 'g \<times> bytes"
  gsm_decode :: "'g \<Rightarrow> bytes \<Rightarrow> 'g \<times> short list"

text \<open>
  Modelled from the spec: \<open>BUFFER_SIZE\<close> is declared in \<open>QsoFrn.h\<close>; the
  specification fixes it as \<open>BUFFER_SIZE = FRAME_COUNT \<times> PCM_FRAME_SIZE\<close>.
\<close>

definition BUFFER_SIZE :: "'g params \<Rightarrow> int" where
  "BUFFER_SIZE p = FRAME_COUNT p * PCM_FRAME_SIZE p"

text \<open>
  Modelled from the spec: \<open>FRN_AUDIO_PACKET_SIZE\<close> is declared in \<open>QsoFrn.h\<close>; the
  specification gives the length of a voice message as the header size 3 plus
  \<open>FRAME_COUNT \<times> GSM_FRAME_SIZE\<close>, where the code compares with
  \<open>FRN_AUDIO_PACKET_SIZE + 3\<close>.
\<close>

definition FRN_AUDIO_PACKET_SIZE :: "'g params \<Rightarrow> int" where
  "FRN_AUDIO_PACKET_SIZE p = FRAME_COUNT p * GSM_FRAME_SIZE p"

subsection \<open>The session object\<close>

text \<open>
  \<open>tcp_connected\<close> is the answer of \<open>tcp_client->isConnected()\<close>;
  \<open>keep_alive_enabled\<close> and \<open>con_timeout_enabled\<close> are the enable flags of the two
  timers. \<open>connect_retry_cnt\<close> is a C++ \<open>int\<close> that only ever grows between two
  successful connects: it is a 32-bit word, compared as a signed number, and its
  increment wraps around at \<open>INT_MAX\<close> as the two's complement machine does.
  \<open>send_buffer_cnt\<close> is a C++ \<open>int\<close> as well; it stays between 0 and
  \<open>BUFFER_SIZE\<close> (\<open>buffer_ok\<close> below) and is modelled as an integer.
\<close>

record options =
  opt_server :: string
  opt_port :: string
  opt_version :: string
  opt_email_address :: string
  opt_dyn_password :: string
  opt_callsign_and_user :: string
  opt_client_type :: string
  opt_band_and_channel :: string
  opt_description :: string
  opt_country :: string
  opt_city_city_part :: string
  opt_net :: string

record 'g qso = options +
  is_sending_voice :: bool
  is_receiving_voice :: bool
  tcp_connected :: bool
  keep_alive_enabled :: bool
  con_timeout_enabled :: bool
  state :: State
  connect_retry_cnt :: c_int
  send_buffer_cnt :: int
  send_buffer :: "short list"
  receive_buffer :: "short list"
  gsmh :: 'g
  trace :: "effect list"

definition emit :: "effect \<Rightarrow> 'g qso \<Rightarrow> 'g qso" where
  "emit e s = s\<lparr>trace := trace s @ [e]\<rparr>"

subsection \<open>Connection state machine\<close>

definition setState :: "State \<Rightarrow> 'g qso \<Rightarrow> 'g qso" where
  "setState newState s =
     (if newState \<noteq> state s
      then emit (StateChange newState) (s\<lparr>state := newState\<rparr>)
      else s)"

definition connect :: "'g qso \<Rightarrow> 'g qso" where
  "connect s =
     (let s1 = setState STATE_CONNECTING s
      in emit (TcpConnect (opt_server s1) (opt_port s1)) s1)"

text \<open>
  Modelled from the spec: \<open>Async::TcpClient\<close> is not among the sources at hand.
  \<open>tcp_client->disconnect()\<close> closes the transport; afterwards \<open>isConnected()\<close>
  answers false.
\<close>

definition tcp_client_disconnect :: "'g qso \<Rightarrow> 'g qso" where
  "tcp_client_disconnect s = emit TcpDisconnect (s\<lparr>tcp_connected := False\<rparr>)"

definition disconnect :: "'g qso \<Rightarrow> 'g qso" where
  "disconnect s =
     (let s1 = setState STATE_DISCONNECTED s;
          s2 = s1\<lparr>keep_alive_enabled := False, con_timeout_enabled := False\<rparr>
      in if tcp_connected s2 then tcp_client_disconnect s2 else s2)"

definition newline :: string where
  "newline = [CHR 0x0A]"

fun request_token :: "Request \<Rightarrow> string" where
  "request_token RQ_RX0 = ''RX0''"
| "request_token RQ_TX0 = ''TX0''"
| "request_token RQ_TX1 = ''TX1''"
| "request_token RQ_P = ''P''"

definition sendRequest :: "Request \<Rightarrow> 'g qso \<Rightarrow> 'g qso" where
  "sendRequest rq s =
     (if tcp_connected s
      then emit (TcpWrite (request_token rq @ newline)) s
      else s)"

definition login_message :: "'g qso \<Rightarrow> string" where
  "login_message s =
     ''CT:''
     @ ''<VX>'' @ opt_version s           @ ''</VX>''
     @ ''<EA>'' @ opt_email_address s     @ ''</EA>''
     @ ''<PW>'' @ opt_dyn_password s      @ ''</PW>''
     @ ''<ON>'' @ opt_callsign_and_user s @ ''</ON>''
     @ ''<CL>'' @ opt_client_type s       @ ''</CL>''
     @ ''<BC>'' @ opt_band_and_channel s  @ ''</BC>''
     @ ''<DS>'' @ opt_description s       @ ''</DS>''
     @ ''<NN>'' @ opt_country s           @ ''</NN>''
     @ ''<CT>'' @ opt_city_city_part s    @ ''</CT>''
     @ ''<NT>'' @ opt_net s               @ ''</NT>''
     @ newline"

definition login :: "'g qso \<Rightarrow> 'g qso" where
  "login s =
     (let s1 = setState STATE_LOGGING_IN s
      in emit (TcpWrite (login_message s1)) s1)"

text \<open>
  \<open>connect_retry_cnt++ < MAX_CONNECT_RETRY_CNT\<close>: the value before the increment is
  compared, as a signed number. The counter is an \<open>int\<close> of 32 bits; its increment at
  \<open>INT_MAX\<close>, which C++ leaves undefined, wraps around here as it does on
  two's-complement machines. The theorems on the reconnect policy stay below it.
\<close>

definition reconnect :: "'g params \<Rightarrow> 'g qso \<Rightarrow> 'g qso" where
  "reconnect p s =
     (let old_cnt = connect_retry_cnt s;
          s1 = s\<lparr>connect_retry_cnt := old_cnt + 1\<rparr>
      in if sint old_cnt < sint (MAX_CONNECT_RETRY_CNT p)
         then connect s1
         else setState STATE_ERROR s1)"

definition onConnected :: "'g qso \<Rightarrow> 'g qso" where
  "onConnected s =
     (let s1 = setState STATE_CONNECTED s;
          s2 = s1\<lparr>connect_retry_cnt := 0, con_timeout_enabled := True\<rparr>
      in login s2)"

definition onDisconnected :: "'g params \<Rightarrow> DisconnectReason \<Rightarrow> 'g qso \<Rightarrow> 'g qso" where
  "onDisconnected p reason s =
     (let s1 = setState STATE_DISCONNECTED s;
          s2 = s1\<lparr>keep_alive_enabled := False, con_timeout_enabled := False\<rparr>
      in case reason of
           DR_HOST_NOT_FOUND \<Rightarrow> setState STATE_ERROR s2
         | DR_REMOTE_DISCONNECTED \<Rightarrow> reconnect p s2
         | DR_SYSTEM_ERROR \<Rightarrow> reconnect p s2
         | DR_RECV_BUFFER_OVERFLOW \<Rightarrow> setState STATE_ERROR s2
         | DR_ORDERED_DISCONNECT \<Rightarrow> s2
         | DR_OTHER \<Rightarrow> setState STATE_ERROR s2)"

definition onKeepaliveTimeout :: "'g qso \<Rightarrow> 'g qso" where
  "onKeepaliveTimeout s = (if tcp_connected s then sendRequest RQ_P s else s)"

definition onConnectTimeout :: "'g params \<Rightarrow> 'g qso \<Rightarrow> 'g qso" where
  "onConnectTimeout p s = reconnect p (disconnect s)"

definition squelchOpen :: "bool \<Rightarrow> 'g qso \<Rightarrow> 'g qso" where
  "squelchOpen is_open s = (if is_open then sendRequest RQ_TX0 s else s)"

subsection \<open>Uplink: sample conversion and the send buffer\<close>

text \<open>
  \<open>static_cast<int16_t>\<close> of a \<open>double\<close> discards the fractional part (rounds
  towards zero); in the branch where it is used the product lies in \<open>[-32767, 32767]\<close>.
\<close>

definition trunc_toward_zero :: "real \<Rightarrow> int" where
  "trunc_toward_zero x = (if 0 \<le> x then \<lfloor>x\<rfloor> else \<lceil>x\<rceil>)"

definition sample_to_short :: "real \<Rightarrow> short" where
  "sample_to_short sample =
     (if sample > 1 then 32767
      else if sample < - 1 then - 32767
      else word_of_int (trunc_toward_zero (32767 * sample)))"

text \<open>
  The inner \<open>for\<close> loop of \<open>writeSamples\<close>: \<open>read_cnt\<close> iterations, each reading
  \<open>samples[samples_read++]\<close> and storing at \<open>send_buffer[send_buffer_cnt++]\<close>.
  \<open>read_cnt\<close> is at most the number of samples left and at most the room left in
  the buffer, so both indices are in range whenever the fill count is within the buffer
  (\<open>buffer_ok\<close> below).
\<close>

fun fill :: "nat \<Rightarrow> real list \<Rightarrow> int \<Rightarrow> 'g qso \<Rightarrow> int \<times> 'g qso" where
  "fill 0 samples samples_read s = (samples_read, s)"
| "fill (Suc n) samples samples_read s =
     fill n samples (samples_read + 1)
       (s\<lparr>send_buffer :=
             (send_buffer s)[nat (send_buffer_cnt s) :=
                sample_to_short (samples ! nat samples_read)],
          send_buffer_cnt := send_buffer_cnt s + 1\<rparr>)"

text \<open>A library call that stores the block \<open>out\<close> at \<open>buf + off\<close>.\<close>

definition write_at :: "'a list \<Rightarrow> nat \<Rightarrow> 'a list \<Rightarrow> 'a list" where
  "write_at buf off out = take off buf @ out @ drop (off + length out) buf"

text \<open>
  One iteration of the frame loop of \<open>sendVoiceData\<close>. The encoder reads one codec
  frame at \<open>src\<close>; the code advances \<open>src\<close> by \<open>PCM_FRAME_SIZE / 2\<close> for the second
  call, so the block handed to the encoder is that half of the PCM block.
\<close>

definition encode_frame ::
  "'g params \<Rightarrow> short list \<Rightarrow> 'g \<times> bytes \<times> int \<Rightarrow> nat \<Rightarrow> 'g \<times> bytes \<times> int" where
  "encode_frame p buf acc nframe =
     (case acc of (g, gsm_data, nbytes) \<Rightarrow>
        let half = nat (PCM_FRAME_SIZE p div 2);
            src = nframe * nat (PCM_FRAME_SIZE p);
            dst = nframe * nat (GSM_FRAME_SIZE p);
            (g1, out1) = gsm_encode p g (take half (drop src buf));
            gsm_data1 = write_at gsm_data dst out1;
            (g2, out2) = gsm_encode p g1 (take half (drop (src + half) buf));
            gsm_data2 = write_at gsm_data1 (dst + 32) out2
        in (g2, gsm_data2, nbytes + GSM_FRAME_SIZE p))"

text \<open>
  The frame loop of \<open>sendVoiceData\<close>, from the codec handle and the buffer to the
  new handle, the array \<open>gsm_data\<close> and \<open>nbytes\<close>. The local array \<open>gsm_data\<close> is
  uninitialised in the source; the model starts it at zero bytes.
\<close>

definition encode_buffer :: "'g params \<Rightarrow> 'g \<Rightarrow> short list \<Rightarrow> 'g \<times> bytes \<times> int" where
  "encode_buffer p g buf =
     foldl (encode_frame p buf)
       (g, replicate (nat (FRN_AUDIO_PACKET_SIZE p)) (CHR 0x00), 0)
       [0..<nat (FRAME_COUNT p)]"

text \<open>
  \<open>sendVoiceData\<close> starts with \<open>assert(send_buffer_cnt == BUFFER_SIZE)\<close>: where the
  assertion fails the process aborts and the function does not return (\<open>None\<close>).
\<close>

definition sendVoiceData :: "'g params \<Rightarrow> 'g qso \<Rightarrow> 'g qso option" where
  "sendVoiceData p s =
     (if send_buffer_cnt s \<noteq> BUFFER_SIZE p then None
      else
        (case encode_buffer p (gsmh s) (send_buffer s) of (g, gsm_data, nbytes) \<Rightarrow>
           let s1 = sendRequest RQ_TX1 (s\<lparr>gsmh := g\<rparr>);
               s2 = emit (TcpWrite (take (nat nbytes) gsm_data)) s1
           in Some (s2\<lparr>send_buffer_cnt := 0\<rparr>)))"

text \<open>
  The handle and the bytes that \<open>sendVoiceData\<close> hands to \<open>tcp_client->write\<close>
  for a given buffer content.
\<close>

definition voice_handle :: "'g params \<Rightarrow> 'g \<Rightarrow> short list \<Rightarrow> 'g" where
  "voice_handle p g buf = fst (encode_buffer p g buf)"

definition voice_payload :: "'g params \<Rightarrow> 'g \<Rightarrow> short list \<Rightarrow> bytes" where
  "voice_payload p g buf =
     (case encode_buffer p g buf of (g', gsm_data, nbytes) \<Rightarrow> take (nat nbytes) gsm_data)"

text \<open>
  The \<open>while\<close> loop of \<open>writeSamples\<close>. The array \<open>samples\<close> and its length
  \<open>count\<close> are one list. The loop need not terminate for every value of the constants
  (with \<open>BUFFER_SIZE = 0\<close> and permission to transmit it sends without end), so it is a
  partial function: \<open>None\<close> means that the call does not return.
\<close>

partial_function (option) writeSamples_loop ::
  "'g params \<Rightarrow> real list \<Rightarrow> int \<Rightarrow> 'g qso \<Rightarrow> (int \<times> 'g qso) option" where
  "writeSamples_loop p samples samples_read s =
     (if samples_read < int (length samples) then
        (case fill (nat (min (BUFFER_SIZE p - send_buffer_cnt s)
                             (int (length samples) - samples_read)))
                samples samples_read s
         of (samples_read1, s1) \<Rightarrow>
           if send_buffer_cnt s1 = BUFFER_SIZE p then
             if is_sending_voice s1 then
               Option.bind (sendVoiceData p s1)
                 (\<lambda>s2. writeSamples_loop p samples samples_read1 s2)
             else Some (samples_read1, s1)
           else writeSamples_loop p samples samples_read1 s1)
      else Some (samples_read, s))"

definition writeSamples :: "'g params \<Rightarrow> real list \<Rightarrow> 'g qso \<Rightarrow> (int \<times> 'g qso) option" where
  "writeSamples p samples s =
     (if state s \<noteq> STATE_LOGGED_IN then Some (int (length samples), s)
      else writeSamples_loop p samples 0 s)"

text \<open>
  \<open>memset(send_buffer + send_buffer_cnt, 0, ...)\<close> zeroes the buffer from the fill
  count to its end.
\<close>

definition zero_pad :: "short list \<Rightarrow> int \<Rightarrow> short list" where
  "zero_pad buf cnt = take (nat cnt) buf @ replicate (length buf - nat cnt) 0"

definition flushSamples :: "'g params \<Rightarrow> 'g qso \<Rightarrow> 'g qso option" where
  "flushSamples p s =
     (if state s = STATE_LOGGED_IN \<and> send_buffer_cnt s > 0 then
        Option.bind
          (sendVoiceData p
             (s\<lparr>send_buffer := zero_pad (send_buffer s) (send_buffer_cnt s),
                send_buffer_cnt := BUFFER_SIZE p\<rparr>))
          (\<lambda>s2. Some (emit SourceAllSamplesFlushed
                        ((sendRequest RQ_TX0 s2)\<lparr>is_sending_voice := False\<rparr>)))
      else Some (emit SourceAllSamplesFlushed s))"

subsection \<open>The payload and the sample stream, as the specification words them\<close>

text \<open>
  The following definitions are not translations of the code: they say, in the words of
  the specification, what is sent, and the theorems below compare the code with them.

  The buffer holds \<open>FRAME_COUNT\<close> consecutive PCM blocks. Each block is split into
  two halves, each half is encoded through the session's persistent codec handle, and
  the two outputs, one after the other, form the packed unit of the block; the payload
  is the concatenation of the packed units. \<open>handle_after p g buf k\<close> is the handle
  after the first \<open>k\<close> blocks.
\<close>

primrec handle_after :: "'g params \<Rightarrow> 'g \<Rightarrow> short list \<Rightarrow> nat \<Rightarrow> 'g" where
  "handle_after p g buf 0 = g"
| "handle_after p g buf (Suc k) =
     (let half = nat (PCM_FRAME_SIZE p div 2);
          block = drop (k * nat (PCM_FRAME_SIZE p)) buf;
          g1 = fst (gsm_encode p (handle_after p g buf k) (take half block))
      in fst (gsm_encode p g1 (take half (drop half block))))"

definition packed_unit :: "'g params \<Rightarrow> 'g \<Rightarrow> short list \<Rightarrow> nat \<Rightarrow> bytes" where
  "packed_unit p g buf k =
     (let half = nat (PCM_FRAME_SIZE p div 2);
          block = drop (k * nat (PCM_FRAME_SIZE p)) buf;
          first_half = gsm_encode p (handle_after p g buf k) (take half block);
          second_half = gsm_encode p (fst first_half) (take half (drop half block))
      in snd first_half @ snd second_half)"

definition packed_payload :: "'g params \<Rightarrow> 'g \<Rightarrow> short list \<Rightarrow> bytes" where
  "packed_payload p g buf =
     concat (map (packed_unit p g buf) [0..<nat (FRAME_COUNT p)])"

text \<open>
  A stream of samples is sent in full buffers: \<open>full_chunks n xs\<close> are the
  consecutive blocks of \<open>n\<close> elements of \<open>xs\<close>, without the incomplete rest.
  \<open>payload_writes\<close> are the transport writes for a list of full buffers: for each
  the token \<open>TX1\<close> (on an open transport) and its payload, the codec handle
  carried from one buffer to the next.
\<close>

function full_chunks :: "nat \<Rightarrow> 'a list \<Rightarrow> 'a list list" where
  "full_chunks n xs =
     (if n = 0 \<or> length xs < n then [] else take n xs # full_chunks n (drop n xs))"
  by pat_completeness auto
termination
  by (relation "measure (\<lambda>(n, xs). length xs)") auto

declare full_chunks.simps [simp del]

fun payload_writes :: "'g params \<Rightarrow> bool \<Rightarrow> 'g \<Rightarrow> short list list \<Rightarrow> effect list" where
  "payload_writes p tcp g [] = []"
| "payload_writes p tcp g (chunk # chunks) =
     (if tcp then [TcpWrite (''TX1'' @ [CHR 0x0A])] else [])
     @ [TcpWrite (voice_payload p g chunk)]
     @ payload_writes p tcp (voice_handle p g chunk) chunks"

subsection \<open>Downlink: response dispatch\<close>

text \<open>
  One iteration of the frame loop of \<open>handleAudioData\<close>: two decoder calls on the
  33 and 32 bytes of one packed unit, the conversion of the decoded PCM block to floats,
  and its delivery to the sink. \<open>pcm_buffer\<close> walks through \<open>receive_buffer\<close>.
\<close>

definition decode_frame :: "'g params \<Rightarrow> bytes \<Rightarrow> 'g qso \<Rightarrow> nat \<Rightarrow> 'g qso" where
  "decode_frame p data s frameno =
     (let src = 3 + frameno * nat (GSM_FRAME_SIZE p);
          pcm = frameno * nat (PCM_FRAME_SIZE p);
          (g1, out1) = gsm_decode p (gsmh s) (take 33 (drop src data));
          rb1 = write_at (receive_buffer s) pcm out1;
          (g2, out2) = gsm_decode p g1 (take 32 (drop (src + 33) data));
          rb2 = write_at rb1 (pcm + nat (PCM_FRAME_SIZE p div 2)) out2;
          pcm_samples = map (\<lambda>w. real_of_int (sint w) / 32768)
                            (take (nat (PCM_FRAME_SIZE p)) (drop pcm rb2))
      in emit (SinkWriteSamples pcm_samples) (s\<lparr>gsmh := g2, receive_buffer := rb2\<rparr>))"

definition handleAudioData :: "'g params \<Rightarrow> bytes \<Rightarrow> 'g qso \<Rightarrow> 'g qso" where
  "handleAudioData p data s =
     (if int (length data) \<noteq> FRN_AUDIO_PACKET_SIZE p + 3 then s
      else foldl (decode_frame p data) s [0..<nat (FRAME_COUNT p)])"

fun handleResponse :: "'g params \<Rightarrow> Response \<Rightarrow> bytes \<Rightarrow> 'g qso \<Rightarrow> 'g qso" where
  "handleResponse p DT_IDLE data s = s"
| "handleResponse p DT_DO_TX data s =
     emit SourceResumeOutput (s\<lparr>is_sending_voice := True\<rparr>)"
| "handleResponse p DT_VOICE_BUFFER data s =
     handleAudioData p data (s\<lparr>is_receiving_voice := True\<rparr>)"
| "handleResponse p cmd data s = s"

text \<open>
  \<open>data_s[0]\<close> of a \<open>std::string\<close>: the first byte, and the terminating zero byte
  when the string is empty.
\<close>

definition first_byte :: "bytes \<Rightarrow> char" where
  "first_byte data = (case data of [] \<Rightarrow> CHR 0x00 | c # cs \<Rightarrow> c)"

definition onDataReceived :: "'g params \<Rightarrow> bytes \<Rightarrow> 'g qso \<Rightarrow> int \<times> 'g qso" where
  "onDataReceived p data s =
     (let s0 = emit ConTimeoutReset s
      in (int (length data),
          (case state s0 of
             STATE_LOGGING_IN \<Rightarrow> setState STATE_LOGGING_IN_2 s0
           | STATE_LOGGING_IN_2 \<Rightarrow>
               sendRequest RQ_RX0
                 ((setState STATE_LOGGED_IN s0)\<lparr>keep_alive_enabled := True\<rparr>)
           | STATE_LOGGED_IN \<Rightarrow>
               handleResponse p (response_of p (first_byte data)) data s0
           | _ \<Rightarrow> s0)))"

subsection \<open>Runs of disconnects\<close>

text \<open>
  The two disconnect reasons that \<open>onDisconnected\<close> answers with \<open>reconnect()\<close>.
\<close>

definition transient :: "DisconnectReason \<Rightarrow> bool" where
  "transient r = (r = DR_REMOTE_DISCONNECTED \<or> r = DR_SYSTEM_ERROR)"

text \<open>The number of calls of \<open>tcp_client->connect\<close> in a trace.\<close>

fun connect_attempts :: "effect list \<Rightarrow> nat" where
  "connect_attempts [] = 0"
| "connect_attempts (TcpConnect host port # es) = Suc (connect_attempts es)"
| "connect_attempts (e # es) = connect_attempts es"

text \<open>
  A run of disconnects with no \<open>onConnected\<close> in between: every connect attempt of
  the run fails, and the transport reports each failure through \<open>onDisconnected\<close>.
\<close>

definition disconnects :: "'g params \<Rightarrow> DisconnectReason list \<Rightarrow> 'g qso \<Rightarrow> 'g qso" where
  "disconnects p rs s = foldl (\<lambda>s' r. onDisconnected p r s') s rs"

subsection \<open>Well-formed sessions and the events that drive them\<close>

text \<open>
  \<open>send_buffer\<close> is an array of \<open>BUFFER_SIZE\<close> samples and the fill count stays
  within it.
\<close>

definition buffer_ok :: "'g params \<Rightarrow> 'g qso \<Rightarrow> bool" where
  "buffer_ok p s =
     (0 \<le> send_buffer_cnt s \<and> send_buffer_cnt s \<le> BUFFER_SIZE p
      \<and> length (send_buffer s) = nat (BUFFER_SIZE p))"

text \<open>The states in which the session holds an open transport.\<close>

fun online :: "State \<Rightarrow> bool" where
  "online STATE_CONNECTED = True"
| "online STATE_LOGGING_IN = True"
| "online STATE_LOGGING_IN_2 = True"
| "online STATE_LOGGED_IN = True"
| "online STATE_DISCONNECTED = False"
| "online STATE_CONNECTING = False"
| "online STATE_ERROR = False"

definition session_inv :: "'g params \<Rightarrow> 'g qso \<Rightarrow> bool" where
  "session_inv p s = (buffer_ok p s \<and> (online (state s) \<longrightarrow> tcp_connected s))"

text \<open>The member initialisers of the constructor.\<close>

definition initial :: "'g params \<Rightarrow> 'g qso \<Rightarrow> bool" where
  "initial p s =
     (\<not> is_sending_voice s \<and> \<not> is_receiving_voice s \<and> \<not> tcp_connected s
      \<and> \<not> keep_alive_enabled s \<and> \<not> con_timeout_enabled s
      \<and> state s = STATE_DISCONNECTED \<and> connect_retry_cnt s = 0
      \<and> send_buffer_cnt s = 0 \<and> length (send_buffer s) = nat (BUFFER_SIZE p)
      \<and> trace s = [])"

text \<open>
  The states a session can be in: the owning module calls the public member functions
  in any order, the timers fire while they are enabled, and the transport calls back.
  Modelled from the spec: of the transport (\<open>Async::TcpClient\<close>, not among the sources
  at hand) the relation records that \<open>isConnected()\<close> answers true from the
  \<open>connected\<close> signal on, false from the \<open>disconnected\<close> signal on, and that
  data is delivered on an open connection only.
\<close>

inductive reachable :: "'g params \<Rightarrow> 'g qso \<Rightarrow> bool" for p :: "'g params" where
  constructed: "initial p s \<Longrightarrow> reachable p s"
| call_connect: "reachable p s \<Longrightarrow> reachable p (connect s)"
| call_disconnect: "reachable p s \<Longrightarrow> reachable p (disconnect s)"
| call_writeSamples:
    "reachable p s \<Longrightarrow> writeSamples p samples s = Some (n, s') \<Longrightarrow> reachable p s'"
| call_flushSamples:
    "reachable p s \<Longrightarrow> flushSamples p s = Some s' \<Longrightarrow> reachable p s'"
| call_squelchOpen: "reachable p s \<Longrightarrow> reachable p (squelchOpen is_open s)"
| tcp_connected:
    "reachable p s \<Longrightarrow> reachable p (onConnected (s\<lparr>tcp_connected := True\<rparr>))"
| tcp_disconnected:
    "reachable p s \<Longrightarrow>
     reachable p (onDisconnected p reason (s\<lparr>tcp_connected := False\<rparr>))"
| tcp_dataReceived:
    "reachable p s \<Longrightarrow> tcp_connected s \<Longrightarrow>
     reachable p (snd (onDataReceived p data s))"
| keep_alive_expired:
    "reachable p s \<Longrightarrow> keep_alive_enabled s \<Longrightarrow> reachable p (onKeepaliveTimeout s)"
| con_timeout_expired:
    "reachable p s \<Longrightarrow> con_timeout_enabled s \<Longrightarrow> reachable p (onConnectTimeout p s)"

subsection \<open>A concrete instance\<close>

text \<open>
  An instance of the parameters for the concrete evaluations below: a retry ceiling of
  5, five frames of 320 samples, packed units of 65 bytes, the response codes numbered
  in the order in which \<open>handleResponse\<close> lists them, and a stand-in for the codec.
  The stand-in encoder alternates between blocks of 32 and 33 bytes, as the WAV49 mode
  does, and copies the low bytes of the first samples of its input into them, so that
  what it returns shows what it was given.
\<close>

definition demo_gsm_encode :: "bool \<Rightarrow> short list \<Rightarrow> bool \<times> bytes" where
  "demo_gsm_encode g block =
     (\<not> g,
      take (if g then 33 else 32)
        (map (\<lambda>w. char_of (unat w)) block @ replicate 33 (CHR 0x00)))"

definition demo_response_of :: "char \<Rightarrow> Response" where
  "demo_response_of c =
     (if c = CHR 0x00 then DT_IDLE
      else if c = CHR 0x01 then DT_DO_TX
      else if c = CHR 0x02 then DT_VOICE_BUFFER
      else if c = CHR 0x03 then DT_CLIENT_LIST
      else if c = CHR 0x04 then DT_TEXT_MESSAGE
      else if c = CHR 0x05 then DT_NET_NAMES
      else if c = CHR 0x06 then DT_ADMIN_LIST
      else if c = CHR 0x07 then DT_ACCESS_LIST
      else if c = CHR 0x08 then DT_BLOCK_LIST
      else if c = CHR 0x09 then DT_MUTE_LIST
      else if c = CHR 0x0A then DT_ACCESS_MODE
      else DT_OTHER)"

definition demo_params :: "bool params" where
  "demo_params =
     \<lparr>MAX_CONNECT_RETRY_CNT = 5,
      FRAME_COUNT = 5,
      PCM_FRAME_SIZE = 320,
      GSM_FRAME_SIZE = 65,
      response_of = demo_response_of,
      gsm_encode = demo_gsm_encode,
      gsm_decode = (\<lambda>g block. (\<not> g, replicate 160 0))\<rparr>"

definition demo_qso :: "bool qso" where
  "demo_qso =
     \<lparr>opt_server = ''frn.example.org'',
      opt_port = ''10024'',
      opt_version = ''2014000'',
      opt_email_address = ''op@example.org'',
      opt_dyn_password = ''secret'',
      opt_callsign_and_user = ''N0CALL, Op'',
      opt_client_type = ''Crosslink'',
      opt_band_and_channel = ''446.00625FM CTC88.5'',
      opt_description = ''Gateway'',
      opt_country = ''Sweden'',
      opt_city_city_part = ''Stockholm - Center'',
      opt_net = ''Test'',
      is_sending_voice = False,
      is_receiving_voice = False,
      tcp_connected = False,
      keep_alive_enabled = False,
      con_timeout_enabled = False,
      state = STATE_DISCONNECTED,
      connect_retry_cnt = 0,
      send_buffer_cnt = 0,
      send_buffer = replicate 1600 0,
      receive_buffer = replicate 1600 0,
      gsmh = False,
      trace = []\<rparr>"

text \<open>The same session once logged in, over an open transport.\<close>

definition demo_logged_in :: "bool qso" where
  "demo_logged_in =
     demo_qso\<lparr>tcp_connected := True, keep_alive_enabled := True,
       con_timeout_enabled := True, state := STATE_LOGGED_IN\<rparr>"

text \<open>
  The logged-in session, authorised to transmit, with three samples buffered in front
  of what an earlier transmission left behind; and the logged-in session with a full
  buffer.
\<close>

definition demo_partial :: "bool qso" where
  "demo_partial =
     demo_logged_in\<lparr>is_sending_voice := True,
       send_buffer := 5 # 6 # 7 # replicate 1597 9, send_buffer_cnt := 3\<rparr>"

definition demo_full :: "bool qso" where
  "demo_full = demo_logged_in\<lparr>send_buffer_cnt := 1600\<rparr>"

text \<open>
  The logged-in session, authorised to transmit, with room for two more samples in its
  buffer.
\<close>

definition demo_nearly_full :: "bool qso" where
  "demo_nearly_full =
     demo_logged_in\<lparr>is_sending_voice := True, send_buffer_cnt := 1598\<rparr>"

section \<open>Connection life cycle\<close>

lemma connect_attempts_append:
  "connect_attempts (xs @ ys) = connect_attempts xs + connect_attempts ys"
  by (induction xs rule: connect_attempts.induct) simp_all

lemma onDisconnected_transient:
  assumes "transient r"
  shows "connect_retry_cnt (onDisconnected p r s) = connect_retry_cnt s + 1"
    and "state (onDisconnected p r s) =
           (if sint (connect_retry_cnt s) < sint (MAX_CONNECT_RETRY_CNT p)
            then STATE_CONNECTING else STATE_ERROR)"
    and "connect_attempts (trace (onDisconnected p r s)) =
           connect_attempts (trace s)
           + (if sint (connect_retry_cnt s) < sint (MAX_CONNECT_RETRY_CNT p) then 1 else 0)"
  using assms
  by (auto simp add: transient_def onDisconnected_def reconnect_def connect_def
        setState_def emit_def Let_def connect_attempts_append)

lemma disconnects_snoc:
  "disconnects p (rs @ [r]) s = onDisconnected p r (disconnects p rs s)"
  by (simp add: disconnects_def)

text \<open>Below \<open>2^31\<close> the counter, read as a signed number, is the number it counts.\<close>

lemma sint_of_nat_c_int:
  assumes "n < 2 ^ 31"
  shows "sint (of_nat n :: c_int) = int n"
  using assms by (simp add: signed_of_nat signed_take_bit_int_eq_self)

lemma disconnects_counter:
  assumes "\<forall>r\<in>set rs. transient r"
  shows "connect_retry_cnt (disconnects p rs s) = connect_retry_cnt s + of_nat (length rs)"
  using assms
proof (induction rs rule: rev_induct)
  case Nil
  then show ?case by (simp add: disconnects_def)
next
  case (snoc r rs)
  then show ?case
    by (simp add: disconnects_snoc onDisconnected_transient(1))
qed

lemma disconnects_run:
  assumes "\<forall>r\<in>set rs. transient r" and "connect_retry_cnt s = 0"
    and "length rs \<le> 2 ^ 31"
  shows "connect_attempts (trace (disconnects p rs s)) =
        connect_attempts (trace s)
        + min (length rs) (nat (sint (MAX_CONNECT_RETRY_CNT p)))
    \<and> (rs \<noteq> [] \<longrightarrow>
        state (disconnects p rs s) =
          (if int (length rs) \<le> sint (MAX_CONNECT_RETRY_CNT p)
           then STATE_CONNECTING else STATE_ERROR))"
  using assms
proof (induction rs rule: rev_induct)
  case Nil
  then show ?case by (simp add: disconnects_def)
next
  case (snoc r rs)
  then have tr: "transient r" and all: "\<forall>r\<in>set rs. transient r"
    and len: "length rs < 2 ^ 31"
    by simp_all
  from snoc.IH all snoc.prems(2) len
  have IH: "connect_attempts (trace (disconnects p rs s)) =
        connect_attempts (trace s)
        + min (length rs) (nat (sint (MAX_CONNECT_RETRY_CNT p)))"
    by simp
  have cnt: "sint (connect_retry_cnt (disconnects p rs s)) = int (length rs)"
    using disconnects_counter [OF all, of p s] snoc.prems(2) len
    by (simp add: sint_of_nat_c_int)
  note step = onDisconnected_transient [OF tr, of p "disconnects p rs s"]
  have "connect_attempts (trace (disconnects p (rs @ [r]) s)) =
        connect_attempts (trace s)
        + min (length (rs @ [r])) (nat (sint (MAX_CONNECT_RETRY_CNT p)))"
    by (simp add: disconnects_snoc step(3) IH cnt)
  moreover have "state (disconnects p (rs @ [r]) s) =
          (if int (length (rs @ [r])) \<le> sint (MAX_CONNECT_RETRY_CNT p)
           then STATE_CONNECTING else STATE_ERROR)"
    by (simp add: disconnects_snoc step(2) cnt)
  ultimately show ?case by blast
qed

text \<open>
  Claim C1, as amended. Take a session whose failure counter is zero (as
  \<open>onConnected\<close> leaves it) and a run of consecutive transient disconnects
  (remote-initiated or system error) with no \<open>onConnected\<close> in between, shorter than
  the \<open>2^31\<close> disconnects at which the \<open>int\<close> counter would overflow. With
  \<open>K = MAX_CONNECT_RETRY_CNT\<close>: the run has issued \<open>min (length rs) K\<close> connect
  attempts; after a non-empty run of at most \<open>K\<close> disconnects the state is
  \<open>Connecting\<close>, after more than \<open>K\<close> it is \<open>Error\<close>; and the next transient
  disconnect is followed by exactly one connect attempt when fewer than \<open>K\<close> went
  before it, and by none otherwise. So each of the first \<open>K\<close> disconnects is followed
  by exactly one connect attempt, the \<open>(K+1)\<close>-th reaches \<open>Error\<close>, and no later one
  of the run connects again.
\<close>

theorem reconnect_policy:
  assumes "connect_retry_cnt s = 0" and "\<forall>r\<in>set rs. transient r" and "transient r"
    and "length rs < 2 ^ 31"
  shows "connect_attempts (trace (disconnects p rs s)) =
           connect_attempts (trace s)
           + min (length rs) (nat (sint (MAX_CONNECT_RETRY_CNT p)))
    \<and> (rs \<noteq> [] \<longrightarrow>
         state (disconnects p rs s) =
           (if int (length rs) \<le> sint (MAX_CONNECT_RETRY_CNT p)
            then STATE_CONNECTING else STATE_ERROR))
    \<and> connect_attempts (trace (onDisconnected p r (disconnects p rs s))) =
           connect_attempts (trace (disconnects p rs s))
           + (if int (length rs) < sint (MAX_CONNECT_RETRY_CNT p) then 1 else 0)
    \<and> state (onDisconnected p r (disconnects p rs s)) =
           (if int (length rs) < sint (MAX_CONNECT_RETRY_CNT p)
            then STATE_CONNECTING else STATE_ERROR)"
proof -
  from assms(4) have le: "length rs \<le> 2 ^ 31" by simp
  note run = disconnects_run [OF assms(2,1) le, of p]
  have cnt: "sint (connect_retry_cnt (disconnects p rs s)) = int (length rs)"
    using disconnects_counter [OF assms(2), of p s] assms(1,4)
    by (simp add: sint_of_nat_c_int)
  note step = onDisconnected_transient(2,3) [OF assms(3), of p "disconnects p rs s"]
  from run step show ?thesis by (simp add: cnt)
qed

text \<open>
  Six transient disconnects at a ceiling of five: five connect attempts, then
  \<open>Error\<close>, and a seventh disconnect leaves it there.
\<close>

theorem reconnect_policy_witness:
  "connect_retry_cnt demo_qso = 0
   \<and> transient DR_REMOTE_DISCONNECTED \<and> transient DR_SYSTEM_ERROR
   \<and> length [DR_REMOTE_DISCONNECTED, DR_SYSTEM_ERROR, DR_REMOTE_DISCONNECTED,
         DR_REMOTE_DISCONNECTED, DR_SYSTEM_ERROR, DR_REMOTE_DISCONNECTED] < (2 :: nat) ^ 31
   \<and> sint (MAX_CONNECT_RETRY_CNT demo_params) = 5
   \<and> connect_attempts (trace (disconnects demo_params
        [DR_REMOTE_DISCONNECTED, DR_SYSTEM_ERROR, DR_REMOTE_DISCONNECTED,
         DR_REMOTE_DISCONNECTED, DR_SYSTEM_ERROR, DR_REMOTE_DISCONNECTED] demo_qso)) = 5
   \<and> state (disconnects demo_params
        [DR_REMOTE_DISCONNECTED, DR_SYSTEM_ERROR, DR_REMOTE_DISCONNECTED,
         DR_REMOTE_DISCONNECTED, DR_SYSTEM_ERROR, DR_REMOTE_DISCONNECTED] demo_qso) = STATE_ERROR
   \<and> state (onDisconnected demo_params DR_SYSTEM_ERROR (disconnects demo_params
        [DR_REMOTE_DISCONNECTED, DR_SYSTEM_ERROR, DR_REMOTE_DISCONNECTED,
         DR_REMOTE_DISCONNECTED, DR_SYSTEM_ERROR, DR_REMOTE_DISCONNECTED] demo_qso))
       = STATE_ERROR"
  using reconnect_policy [of demo_qso
        "[DR_REMOTE_DISCONNECTED, DR_SYSTEM_ERROR, DR_REMOTE_DISCONNECTED,
         DR_REMOTE_DISCONNECTED, DR_SYSTEM_ERROR, DR_REMOTE_DISCONNECTED]"
        DR_SYSTEM_ERROR demo_params]
  by (simp add: transient_def demo_qso_def demo_params_def)

text \<open>
  Claim C1 as stated fails: at a ceiling of five and a counter of zero, the state after
  exactly five consecutive transient disconnects is not \<open>Error\<close>, and the fifth
  disconnect, which is not strictly below the ceiling, is followed by a connect attempt
  (the fifth) as well.
\<close>

theorem error_after_ceiling_counterexample:
  "sint (MAX_CONNECT_RETRY_CNT demo_params) = 5
   \<and> connect_retry_cnt demo_qso = 0
   \<and> state (disconnects demo_params
        [DR_REMOTE_DISCONNECTED, DR_REMOTE_DISCONNECTED, DR_REMOTE_DISCONNECTED,
         DR_REMOTE_DISCONNECTED, DR_REMOTE_DISCONNECTED] demo_qso) \<noteq> STATE_ERROR
   \<and> connect_attempts (trace (disconnects demo_params
        [DR_REMOTE_DISCONNECTED, DR_REMOTE_DISCONNECTED, DR_REMOTE_DISCONNECTED,
         DR_REMOTE_DISCONNECTED] demo_qso)) = 4
   \<and> connect_attempts (trace (disconnects demo_params
        [DR_REMOTE_DISCONNECTED, DR_REMOTE_DISCONNECTED, DR_REMOTE_DISCONNECTED,
         DR_REMOTE_DISCONNECTED, DR_REMOTE_DISCONNECTED] demo_qso)) = 5"
  by (simp add: disconnects_def onDisconnected_def reconnect_def connect_def setState_def
        emit_def demo_qso_def demo_params_def Let_def)

text \<open>
  The bound on the run is needed. At \<open>INT_MAX\<close> the increment wraps the counter to
  \<open>INT_MIN\<close>, which is below every ceiling but \<open>INT_MIN\<close> itself: a session in
  \<open>Error\<close> whose counter has come that far connects again on the next transient
  disconnect.
\<close>

lemma reconnect_counter_wraps:
  assumes "connect_retry_cnt s = 2147483647"
  shows "sint (connect_retry_cnt s) = 2147483647"
    and "sint (connect_retry_cnt (reconnect p s)) = - 2147483648"
  using assms by (simp_all add: reconnect_def Let_def connect_def setState_def emit_def)

lemma connects_again_after_overflow:
  "state (onDisconnected demo_params DR_REMOTE_DISCONNECTED
     (onDisconnected demo_params DR_REMOTE_DISCONNECTED
        (demo_qso\<lparr>state := STATE_ERROR, connect_retry_cnt := 2147483647\<rparr>)))
   = STATE_CONNECTING"
  by (simp add: onDisconnected_def reconnect_def connect_def setState_def
        emit_def demo_qso_def demo_params_def Let_def)

text \<open>
  Claim C9. \<open>disconnect()\<close> is defined on every session and is idempotent: it
  leaves the state \<open>Disconnected\<close>, both timers disarmed and the transport closed,
  it calls \<open>tcp_client->disconnect()\<close> only if the transport is open, and a second
  call changes nothing at all.
\<close>

theorem disconnect_idempotent:
  "disconnect (disconnect s) = disconnect s
   \<and> state (disconnect s) = STATE_DISCONNECTED
   \<and> \<not> keep_alive_enabled (disconnect s)
   \<and> \<not> con_timeout_enabled (disconnect s)
   \<and> \<not> tcp_connected (disconnect s)
   \<and> trace (disconnect s) =
       trace s
       @ (if state s = STATE_DISCONNECTED then [] else [StateChange STATE_DISCONNECTED])
       @ (if tcp_connected s then [TcpDisconnect] else [])"
  by (simp add: disconnect_def tcp_client_disconnect_def setState_def emit_def Let_def)

text \<open>On the logged-in session: one state change, one transport close.\<close>

theorem disconnect_idempotent_witness:
  "disconnect (disconnect demo_logged_in) = disconnect demo_logged_in
   \<and> state (disconnect demo_logged_in) = STATE_DISCONNECTED
   \<and> trace (disconnect demo_logged_in) = [StateChange STATE_DISCONNECTED, TcpDisconnect]"
  using disconnect_idempotent [of demo_logged_in]
  by (simp add: demo_logged_in_def demo_qso_def)

text \<open>
  Claim C10. \<open>squelchOpen(false)\<close> returns the session as it is: no control token,
  no transport write, the state, the flags and the fill count unchanged. Only
  \<open>squelchOpen(true)\<close> sends: it is \<open>sendRequest(RQ_TX0)\<close>, which writes the
  token \<open>TX0\<close> on an open transport.
\<close>

theorem squelchOpen_closed_is_noop:
  "squelchOpen False s = s
   \<and> squelchOpen True s = sendRequest RQ_TX0 s
   \<and> trace (squelchOpen True s) =
       trace s @ (if tcp_connected s then [TcpWrite (''TX0'' @ newline)] else [])"
  by (simp add: squelchOpen_def sendRequest_def emit_def)

text \<open>On the logged-in session.\<close>

theorem squelchOpen_closed_is_noop_witness:
  "squelchOpen False demo_logged_in = demo_logged_in
   \<and> trace (squelchOpen True demo_logged_in) = [TcpWrite (''TX0'' @ newline)]"
  using squelchOpen_closed_is_noop [of demo_logged_in, THEN conjunct1]
    squelchOpen_closed_is_noop [of demo_logged_in, THEN conjunct2, THEN conjunct2]
  by (simp add: demo_logged_in_def demo_qso_def)

text \<open>
  Claim C2. In every state other than \<open>LoggedIn\<close>, \<open>writeSamples(s, n)\<close> returns
  \<open>n\<close> and leaves the session as it is: no transport write, the fill count of the
  uplink buffer unchanged.
\<close>

theorem writeSamples_muted:
  assumes "state s \<noteq> STATE_LOGGED_IN"
  shows "writeSamples p samples s = Some (int (length samples), s)"
  using assms by (simp add: writeSamples_def)

text \<open>Three samples offered to the disconnected session.\<close>

theorem writeSamples_muted_witness:
  "state demo_qso \<noteq> STATE_LOGGED_IN
   \<and> writeSamples demo_params [1 / 2, - 2, 0] demo_qso = Some (3, demo_qso)"
  using writeSamples_muted [of demo_qso demo_params "[1 / 2, - 2, 0]"]
  by (simp add: demo_qso_def)

section \<open>Uplink: buffering, encoding and flow control\<close>

text \<open>
  The frame loop of \<open>sendVoiceData\<close> adds \<open>GSM_FRAME_SIZE\<close> to \<open>nbytes\<close> once per
  frame and never shortens \<open>gsm_data\<close>, whatever the encoder returns.
\<close>

lemma length_write_at: "length buf \<le> length (write_at buf off out)"
  by (simp add: write_at_def)

lemma encode_fold:
  "foldl (encode_frame p buf) (g, d, n) ks = (g', d', n') \<Longrightarrow>
     n' = n + int (length ks) * GSM_FRAME_SIZE p \<and> length d \<le> length d'"
proof (induction ks arbitrary: g d n)
  case Nil
  then show ?case by simp
next
  case (Cons k ks)
  obtain g1 d1 n1 where e: "encode_frame p buf (g, d, n) k = (g1, d1, n1)"
    by (cases "encode_frame p buf (g, d, n) k") auto
  from e have n1: "n1 = n + GSM_FRAME_SIZE p" and d1: "length d \<le> length d1"
    by (auto simp: encode_frame_def Let_def split: prod.splits
        intro: order_trans [OF length_write_at length_write_at])
  from Cons.prems e have "foldl (encode_frame p buf) (g1, d1, n1) ks = (g', d', n')"
    by simp
  from Cons.IH [OF this] n1 d1 show ?case
    by (simp add: algebra_simps)
qed

lemma length_voice_payload:
  assumes "0 \<le> FRAME_COUNT p" "0 \<le> GSM_FRAME_SIZE p"
  shows "int (length (voice_payload p g buf)) = FRAME_COUNT p * GSM_FRAME_SIZE p"
proof -
  obtain g' d' n' where e: "encode_buffer p g buf = (g', d', n')"
    by (cases "encode_buffer p g buf") auto
  note f = encode_fold [OF e [unfolded encode_buffer_def]]
  have n': "n' = 0 + int (length [0..<nat (FRAME_COUNT p)]) * GSM_FRAME_SIZE p"
    and d': "length (replicate (nat (FRN_AUDIO_PACKET_SIZE p)) (CHR 0x00)) \<le> length d'"
    using f by blast+
  from n' assms have n: "n' = FRAME_COUNT p * GSM_FRAME_SIZE p" by simp
  from d' n assms have "nat n' \<le> length d'"
    by (simp add: FRN_AUDIO_PACKET_SIZE_def)
  with e n assms show ?thesis
    by (simp add: voice_payload_def)
qed

lemma sendVoiceData_full:
  "send_buffer_cnt s = BUFFER_SIZE p \<Longrightarrow>
   sendVoiceData p s =
     Some (s\<lparr>gsmh := voice_handle p (gsmh s) (send_buffer s),
             send_buffer_cnt := 0,
             trace := trace s
               @ (if tcp_connected s then [TcpWrite (''TX1'' @ newline)] else [])
               @ [TcpWrite (voice_payload p (gsmh s) (send_buffer s))]\<rparr>)"
  by (simp add: sendVoiceData_def voice_handle_def voice_payload_def sendRequest_def
      emit_def Let_def split: prod.splits)

text \<open>
  The inner loop of \<open>writeSamples\<close> copies the next \<open>n\<close> samples, converted, to the
  buffer at the fill count.
\<close>

lemma fill_spec:
  "0 \<le> send_buffer_cnt s \<Longrightarrow> nat (send_buffer_cnt s) + n \<le> length (send_buffer s) \<Longrightarrow>
   0 \<le> sr \<Longrightarrow> nat sr + n \<le> length samples \<Longrightarrow>
   fill n samples sr s =
     (sr + int n,
      s\<lparr>send_buffer :=
           take (nat (send_buffer_cnt s)) (send_buffer s)
           @ map sample_to_short (take n (drop (nat sr) samples))
           @ drop (nat (send_buffer_cnt s) + n) (send_buffer s),
        send_buffer_cnt := send_buffer_cnt s + int n\<rparr>)"
proof (induction n arbitrary: sr s)
  case 0
  then show ?case by simp
next
  case (Suc n)
  let ?c = "nat (send_buffer_cnt s)"
  let ?s1 = "s\<lparr>send_buffer := (send_buffer s)[?c := sample_to_short (samples ! nat sr)],
                send_buffer_cnt := send_buffer_cnt s + 1\<rparr>"
  have c1: "nat (send_buffer_cnt ?s1) = Suc ?c" using Suc.prems by (simp add: nat_add_distrib)
  have sr1: "nat (sr + 1) = Suc (nat sr)" using Suc.prems by (simp add: nat_add_distrib)
  have "fill n samples (sr + 1) ?s1 =
     (sr + 1 + int n,
      ?s1\<lparr>send_buffer :=
           take (nat (send_buffer_cnt ?s1)) (send_buffer ?s1)
           @ map sample_to_short (take n (drop (nat (sr + 1)) samples))
           @ drop (nat (send_buffer_cnt ?s1) + n) (send_buffer ?s1),
        send_buffer_cnt := send_buffer_cnt ?s1 + int n\<rparr>)"
    using Suc.prems by (intro Suc.IH) (simp_all add: nat_add_distrib)
  moreover have "take (Suc ?c) ((send_buffer s)[?c := v]) = take ?c (send_buffer s) @ [v]" for v
    using Suc.prems by (simp add: take_Suc_conv_app_nth)
  moreover have "take (Suc n) (drop (nat sr) samples) = samples ! nat sr # take n (drop (Suc (nat sr)) samples)"
    using Suc.prems by (simp add: Cons_nth_drop_Suc [symmetric])
  moreover have "drop (Suc ?c + n) ((send_buffer s)[?c := v]) = drop (Suc (?c + n)) (send_buffer s)" for v
    by simp
  ultimately show ?case
    by (simp only: fill.simps c1 sr1) simp
qed

lemma writeSamples_loop_done:
  "\<not> samples_read < int (length samples) \<Longrightarrow>
   writeSamples_loop p samples samples_read s = Some (samples_read, s)"
  by (subst writeSamples_loop.simps) simp

lemma writeSamples_fits:
  assumes "state s = STATE_LOGGED_IN" and "buffer_ok p s"
    and "send_buffer_cnt s + int (length samples) < BUFFER_SIZE p"
  shows "writeSamples p samples s =
      Some (int (length samples),
            s\<lparr>send_buffer := take (nat (send_buffer_cnt s)) (send_buffer s)
                 @ map sample_to_short samples
                 @ drop (nat (send_buffer_cnt s) + length samples) (send_buffer s),
              send_buffer_cnt := send_buffer_cnt s + int (length samples)\<rparr>)"
proof (cases "samples = []")
  case True
  with assms show ?thesis
    by (simp add: writeSamples_def writeSamples_loop_done)
next
  case False
  let ?n = "length samples"
  let ?s1 = "s\<lparr>send_buffer := take (nat (send_buffer_cnt s)) (send_buffer s)
                 @ map sample_to_short samples
                 @ drop (nat (send_buffer_cnt s) + length samples) (send_buffer s),
              send_buffer_cnt := send_buffer_cnt s + int (length samples)\<rparr>"
  have f: "fill ?n samples 0 s = (int ?n, ?s1)"
    using assms by (subst fill_spec) (auto simp: buffer_ok_def)
  have m: "nat (min (BUFFER_SIZE p - send_buffer_cnt s) (int (length samples) - 0)) = ?n"
    using assms by simp
  have "writeSamples p samples s = writeSamples_loop p samples 0 s"
    using assms by (simp add: writeSamples_def)
  also have "\<dots> = writeSamples_loop p samples (int ?n) ?s1"
    using assms False by (subst writeSamples_loop.simps) (simp only: m f, simp)
  also have "\<dots> = Some (int ?n, ?s1)"
    by (simp add: writeSamples_loop_done)
  finally show ?thesis .
qed

lemma writeSamples_blocked:
  assumes "state s = STATE_LOGGED_IN" and "\<not> is_sending_voice s" and "buffer_ok p s"
    and "BUFFER_SIZE p - send_buffer_cnt s < int (length samples)"
  shows "writeSamples p samples s =
      Some (BUFFER_SIZE p - send_buffer_cnt s,
            s\<lparr>send_buffer := take (nat (send_buffer_cnt s)) (send_buffer s)
                 @ map sample_to_short (take (nat (BUFFER_SIZE p - send_buffer_cnt s)) samples),
              send_buffer_cnt := BUFFER_SIZE p\<rparr>)"
proof -
  let ?n = "nat (BUFFER_SIZE p - send_buffer_cnt s)"
  let ?s1 = "s\<lparr>send_buffer := take (nat (send_buffer_cnt s)) (send_buffer s)
                 @ map sample_to_short (take ?n samples),
              send_buffer_cnt := BUFFER_SIZE p\<rparr>"
  have f: "fill ?n samples 0 s = (BUFFER_SIZE p - send_buffer_cnt s, ?s1)"
    using assms by (subst fill_spec) (auto simp: buffer_ok_def)
  have m: "min (BUFFER_SIZE p - send_buffer_cnt s) (int (length samples) - 0)
             = BUFFER_SIZE p - send_buffer_cnt s"
    using assms by simp
  have ne: "0 < int (length samples)"
    using assms unfolding buffer_ok_def by linarith
  have "writeSamples p samples s = writeSamples_loop p samples 0 s"
    using assms by (simp add: writeSamples_def)
  also have "\<dots> = Some (BUFFER_SIZE p - send_buffer_cnt s, ?s1)"
    using assms ne by (subst writeSamples_loop.simps) (simp only: m f, simp)
  finally show ?thesis .
qed

lemma writeSamples_full_blocked:
  assumes "state t = STATE_LOGGED_IN" and "\<not> is_sending_voice t" and "buffer_ok p t"
    and "send_buffer_cnt t = BUFFER_SIZE p" and "later \<noteq> []"
  shows "writeSamples p later t = Some (0, t)"
proof -
  have "BUFFER_SIZE p - send_buffer_cnt t < int (length later)"
    using assms(4,5) by simp
  from writeSamples_blocked [OF assms(1-3) this] assms(3,4) show ?thesis
    by (simp add: buffer_ok_def)
qed

text \<open>
  Claim C3. While \<open>LoggedIn\<close> and authorised to transmit, with an empty buffer,
  \<open>writeSamples\<close> of exactly \<open>BUFFER_SIZE\<close> samples accepts them all and makes
  exactly two transport writes, in this order: the control token \<open>TX1\<close>, then,
  as a separate write, a payload of exactly \<open>FRAME_COUNT \<times> GSM_FRAME_SIZE\<close> bytes
  (the encoding of the converted samples); the fill count is 0 again. The transport is
  open, as it is in every logged-in session, and the constants are positive.
\<close>

theorem writeSamples_full_buffer:
  assumes "state s = STATE_LOGGED_IN" and "is_sending_voice s" and "tcp_connected s"
    and "send_buffer_cnt s = 0" and "buffer_ok p s"
    and "int (length samples) = BUFFER_SIZE p"
    and "0 < FRAME_COUNT p" and "0 < PCM_FRAME_SIZE p" and "0 \<le> GSM_FRAME_SIZE p"
  shows "writeSamples p samples s =
      Some (BUFFER_SIZE p,
            s\<lparr>send_buffer := map sample_to_short samples,
              gsmh := voice_handle p (gsmh s) (map sample_to_short samples),
              send_buffer_cnt := 0,
              trace := trace s @
                [TcpWrite (''TX1'' @ newline),
                 TcpWrite (voice_payload p (gsmh s) (map sample_to_short samples))]\<rparr>)
    \<and> int (length (voice_payload p (gsmh s) (map sample_to_short samples)))
        = FRAME_COUNT p * GSM_FRAME_SIZE p"
proof -
  have pos: "0 < BUFFER_SIZE p" using assms by (simp add: BUFFER_SIZE_def)
  let ?n = "nat (BUFFER_SIZE p)"
  have len: "length samples = ?n" using assms by simp
  let ?s1 = "s\<lparr>send_buffer := map sample_to_short samples, send_buffer_cnt := BUFFER_SIZE p\<rparr>"
  have f: "fill ?n samples 0 s = (BUFFER_SIZE p, ?s1)"
    using assms pos len by (subst fill_spec) (auto simp: buffer_ok_def)
  have v: "sendVoiceData p ?s1 = Some (?s1\<lparr>gsmh := voice_handle p (gsmh ?s1) (send_buffer ?s1),
             send_buffer_cnt := 0,
             trace := trace ?s1
               @ (if tcp_connected ?s1 then [TcpWrite (''TX1'' @ newline)] else [])
               @ [TcpWrite (voice_payload p (gsmh ?s1) (send_buffer ?s1))]\<rparr>)"
    by (rule sendVoiceData_full) simp
  have "writeSamples p samples s = writeSamples_loop p samples 0 s"
    using assms by (simp add: writeSamples_def)
  also have "\<dots> = Option.bind (sendVoiceData p ?s1)
                      (\<lambda>s2. writeSamples_loop p samples (BUFFER_SIZE p) s2)"
    using assms pos f by (subst writeSamples_loop.simps) simp
  also have "\<dots> = Some (BUFFER_SIZE p,
            s\<lparr>send_buffer := map sample_to_short samples,
              gsmh := voice_handle p (gsmh s) (map sample_to_short samples),
              send_buffer_cnt := 0,
              trace := trace s @
                [TcpWrite (''TX1'' @ newline),
                 TcpWrite (voice_payload p (gsmh s) (map sample_to_short samples))]\<rparr>)"
    using assms by (simp only: v) (simp add: writeSamples_loop_done)
  finally show ?thesis
    using assms by (simp add: length_voice_payload)
qed

text \<open>1600 samples of silence offered to the logged-in, authorised session.\<close>

theorem writeSamples_full_buffer_witness:
  "state (demo_logged_in\<lparr>is_sending_voice := True\<rparr>) = STATE_LOGGED_IN
   \<and> is_sending_voice (demo_logged_in\<lparr>is_sending_voice := True\<rparr>)
   \<and> tcp_connected (demo_logged_in\<lparr>is_sending_voice := True\<rparr>)
   \<and> send_buffer_cnt (demo_logged_in\<lparr>is_sending_voice := True\<rparr>) = 0
   \<and> buffer_ok demo_params (demo_logged_in\<lparr>is_sending_voice := True\<rparr>)
   \<and> int (length (replicate 1600 (0::real))) = BUFFER_SIZE demo_params
   \<and> map_option fst
        (writeSamples demo_params (replicate 1600 0) (demo_logged_in\<lparr>is_sending_voice := True\<rparr>))
       = Some 1600
   \<and> map_option (send_buffer_cnt \<circ> snd)
        (writeSamples demo_params (replicate 1600 0) (demo_logged_in\<lparr>is_sending_voice := True\<rparr>))
       = Some 0
   \<and> length (voice_payload demo_params False (map sample_to_short (replicate 1600 0))) = 325"
proof -
  let ?s = "demo_logged_in\<lparr>is_sending_voice := True\<rparr>"
  have h: "state ?s = STATE_LOGGED_IN" "is_sending_voice ?s" "tcp_connected ?s"
    "send_buffer_cnt ?s = 0" "buffer_ok demo_params ?s"
    "int (length (replicate 1600 (0::real))) = BUFFER_SIZE demo_params"
    "0 < FRAME_COUNT demo_params" "0 < PCM_FRAME_SIZE demo_params"
    "0 \<le> GSM_FRAME_SIZE demo_params"
    by (simp_all add: demo_logged_in_def demo_qso_def demo_params_def buffer_ok_def
          BUFFER_SIZE_def)
  note r = writeSamples_full_buffer [OF h]
  have g: "gsmh ?s = False" "BUFFER_SIZE demo_params = 1600"
    "FRAME_COUNT demo_params * GSM_FRAME_SIZE demo_params = 325"
    by (simp_all add: demo_logged_in_def demo_qso_def demo_params_def BUFFER_SIZE_def)
  from r [THEN conjunct1] have a: "map_option fst
        (writeSamples demo_params (replicate 1600 0) ?s) = Some 1600"
    "map_option (send_buffer_cnt \<circ> snd)
        (writeSamples demo_params (replicate 1600 0) ?s) = Some 0"
    by (simp_all add: g)
  from r [THEN conjunct2] have b:
    "length (voice_payload demo_params False (map sample_to_short (replicate 1600 0))) = 325"
    by (simp add: g)
  from h(1-6) a b show ?thesis by blast
qed

text \<open>
  Claim C4. While \<open>LoggedIn\<close> and not authorised to transmit, \<open>writeSamples\<close>
  of more samples than the buffer has room for accepts exactly the remaining capacity,
  which is strictly less than the count offered. The buffer is left exactly full: the
  fill count equals \<open>BUFFER_SIZE\<close>, the samples buffered before are still in place,
  nothing is written to the transport, and any further non-empty call (authorisation
  still missing) accepts 0 samples and changes nothing.
\<close>

theorem writeSamples_backpressure:
  assumes "state s = STATE_LOGGED_IN" and "\<not> is_sending_voice s" and "buffer_ok p s"
    and "BUFFER_SIZE p - send_buffer_cnt s < int (length samples)"
    and "later \<noteq> []"
  shows "\<exists>s'. writeSamples p samples s = Some (BUFFER_SIZE p - send_buffer_cnt s, s')
    \<and> BUFFER_SIZE p - send_buffer_cnt s < int (length samples)
    \<and> send_buffer_cnt s' = BUFFER_SIZE p
    \<and> length (send_buffer s') = nat (BUFFER_SIZE p)
    \<and> take (nat (send_buffer_cnt s)) (send_buffer s')
         = take (nat (send_buffer_cnt s)) (send_buffer s)
    \<and> send_buffer s' = take (nat (send_buffer_cnt s)) (send_buffer s)
         @ map sample_to_short (take (nat (BUFFER_SIZE p - send_buffer_cnt s)) samples)
    \<and> trace s' = trace s \<and> state s' = STATE_LOGGED_IN \<and> \<not> is_sending_voice s'
    \<and> writeSamples p later s' = Some (0, s')"
proof -
  let ?s' = "s\<lparr>send_buffer := take (nat (send_buffer_cnt s)) (send_buffer s)
                 @ map sample_to_short (take (nat (BUFFER_SIZE p - send_buffer_cnt s)) samples),
              send_buffer_cnt := BUFFER_SIZE p\<rparr>"
  have w: "writeSamples p samples s = Some (BUFFER_SIZE p - send_buffer_cnt s, ?s')"
    using assms(1-4) by (rule writeSamples_blocked)
  have len: "length (send_buffer ?s') = nat (BUFFER_SIZE p)"
    using assms(3,4) by (auto simp: buffer_ok_def min_def)
  have ok: "buffer_ok p ?s'"
    using assms(3) len by (simp add: buffer_ok_def)
  have again: "writeSamples p later ?s' = Some (0, ?s')"
    using assms(1,2,5) ok by (intro writeSamples_full_blocked) simp_all
  have keep: "take (nat (send_buffer_cnt s)) (send_buffer ?s')
         = take (nat (send_buffer_cnt s)) (send_buffer s)"
    using assms(3) by (auto simp: buffer_ok_def)
  show ?thesis
    using w len keep again assms(1,2,4) by (intro exI [of _ ?s']) simp
qed

text \<open>Four samples offered where two fit.\<close>

theorem writeSamples_backpressure_witness:
  "state (demo_logged_in\<lparr>send_buffer_cnt := 1598\<rparr>) = STATE_LOGGED_IN
   \<and> \<not> is_sending_voice (demo_logged_in\<lparr>send_buffer_cnt := 1598\<rparr>)
   \<and> buffer_ok demo_params (demo_logged_in\<lparr>send_buffer_cnt := 1598\<rparr>)
   \<and> BUFFER_SIZE demo_params - send_buffer_cnt (demo_logged_in\<lparr>send_buffer_cnt := 1598\<rparr>)
        < int (length [1 / 2, 1 / 4, - 1 / 2, 1 :: real])
   \<and> [0 :: real] \<noteq> []
   \<and> map_option fst
        (writeSamples demo_params [1 / 2, 1 / 4, - 1 / 2, 1]
           (demo_logged_in\<lparr>send_buffer_cnt := 1598\<rparr>)) = Some 2
   \<and> map_option (send_buffer_cnt \<circ> snd)
        (writeSamples demo_params [1 / 2, 1 / 4, - 1 / 2, 1]
           (demo_logged_in\<lparr>send_buffer_cnt := 1598\<rparr>)) = Some 1600"
proof -
  let ?s = "demo_logged_in\<lparr>send_buffer_cnt := 1598\<rparr>"
  have h: "state ?s = STATE_LOGGED_IN" "\<not> is_sending_voice ?s" "buffer_ok demo_params ?s"
    "BUFFER_SIZE demo_params - send_buffer_cnt ?s < int (length [1 / 2, 1 / 4, - 1 / 2, 1 :: real])"
    "[0 :: real] \<noteq> []"
    by (simp_all add: demo_logged_in_def demo_qso_def demo_params_def buffer_ok_def
          BUFFER_SIZE_def)
  have g: "BUFFER_SIZE demo_params = 1600" "send_buffer_cnt ?s = 1598"
    by (simp_all add: demo_params_def BUFFER_SIZE_def)
  from writeSamples_backpressure [OF h] obtain s' where
    "writeSamples demo_params [1 / 2, 1 / 4, - 1 / 2, 1] ?s
       = Some (BUFFER_SIZE demo_params - send_buffer_cnt ?s, s')"
    and "send_buffer_cnt s' = BUFFER_SIZE demo_params"
    by blast
  then have a: "map_option fst (writeSamples demo_params [1 / 2, 1 / 4, - 1 / 2, 1] ?s) = Some 2"
    "map_option (send_buffer_cnt \<circ> snd)
        (writeSamples demo_params [1 / 2, 1 / 4, - 1 / 2, 1] ?s) = Some 1600"
    by (simp_all add: g)
  from h a show ?thesis by blast
qed

lemma flushSamples_partial:
  assumes "state s = STATE_LOGGED_IN" and "0 < send_buffer_cnt s"
  shows "flushSamples p s =
     Some (s\<lparr>send_buffer := zero_pad (send_buffer s) (send_buffer_cnt s),
             gsmh := voice_handle p (gsmh s) (zero_pad (send_buffer s) (send_buffer_cnt s)),
             send_buffer_cnt := 0,
             is_sending_voice := False,
             trace := trace s
               @ (if tcp_connected s then [TcpWrite (''TX1'' @ newline)] else [])
               @ [TcpWrite (voice_payload p (gsmh s)
                    (zero_pad (send_buffer s) (send_buffer_cnt s)))]
               @ (if tcp_connected s then [TcpWrite (''TX0'' @ newline)] else [])
               @ [SourceAllSamplesFlushed]\<rparr>)"
  using assms
  by (simp add: flushSamples_def sendVoiceData_full sendRequest_def emit_def)

lemma flushSamples_idle:
  assumes "state s \<noteq> STATE_LOGGED_IN \<or> send_buffer_cnt s \<le> 0"
  shows "flushSamples p s = Some (s\<lparr>trace := trace s @ [SourceAllSamplesFlushed]\<rparr>)"
  using assms by (auto simp add: flushSamples_def emit_def)

subsection \<open>The payload is the concatenation of the packed units\<close>

text \<open>
  The codec library is a parameter. What the code relies on is the alternation of the
  WAV49 mode, written at the two calls of \<open>sendVoiceData\<close> (``produce alternating
  frames 32, 33, 32, 33''): the first call of a pair returns 32 bytes, the second the
  rest of the packed unit. \<open>idx\<close> reads the position in the pair off the handle. Under
  this alternation the two outputs of each block lie side by side in \<open>gsm_data\<close>, block
  after block.
\<close>

lemma encode_buffer_prefix:
  assumes toggle: "\<And>g b. idx (fst (gsm_encode p g b)) = (\<not> idx g)"
    and len: "\<And>g b. length (snd (gsm_encode p g b)) =
                (if idx g then nat (GSM_FRAME_SIZE p) - 32 else 32)"
    and even: "\<not> idx g" and gsm: "32 \<le> GSM_FRAME_SIZE p"
    and k: "k \<le> n"
  shows "foldl (encode_frame p buf)
           (g, replicate (n * nat (GSM_FRAME_SIZE p)) (CHR 0x00), 0) [0..<k] =
         (handle_after p g buf k,
          concat (map (packed_unit p g buf) [0..<k])
            @ replicate ((n - k) * nat (GSM_FRAME_SIZE p)) (CHR 0x00),
          int k * GSM_FRAME_SIZE p)
       \<and> \<not> idx (handle_after p g buf k)
       \<and> length (concat (map (packed_unit p g buf) [0..<k])) = k * nat (GSM_FRAME_SIZE p)"
  using k
proof (induction k)
  case 0
  then show ?case using even by simp
next
  case (Suc k)
  let ?G = "nat (GSM_FRAME_SIZE p)"
  let ?half = "nat (PCM_FRAME_SIZE p div 2)"
  let ?src = "k * nat (PCM_FRAME_SIZE p)"
  let ?h = "handle_after p g buf k"
  let ?U = "concat (map (packed_unit p g buf) [0..<k])"
  let ?Z = "replicate ((n - k) * ?G) (CHR 0x00)"
  from Suc have IH:
    "foldl (encode_frame p buf) (g, replicate (n * ?G) (CHR 0x00), 0) [0..<k] =
       (?h, ?U @ ?Z, int k * GSM_FRAME_SIZE p)"
    and ev: "\<not> idx ?h" and lenU: "length ?U = k * ?G"
    by simp_all
  obtain g1 out1 where e1: "gsm_encode p ?h (take ?half (drop ?src buf)) = (g1, out1)"
    by (cases "gsm_encode p ?h (take ?half (drop ?src buf))") auto
  obtain g2 out2 where e2:
    "gsm_encode p g1 (take ?half (drop (?src + ?half) buf)) = (g2, out2)"
    by (cases "gsm_encode p g1 (take ?half (drop (?src + ?half) buf))") auto
  have G32: "32 \<le> ?G" using gsm by simp
  have l1: "length out1 = 32"
    using len [of ?h "take ?half (drop ?src buf)"] ev e1 by simp
  have i1: "idx g1"
    using toggle [of ?h "take ?half (drop ?src buf)"] ev e1 by simp
  have l2: "length out2 = ?G - 32"
    using len [of g1 "take ?half (drop (?src + ?half) buf)"] i1 e2 by simp
  have i2: "\<not> idx g2"
    using toggle [of g1 "take ?half (drop (?src + ?half) buf)"] i1 e2 by simp
  have e2': "gsm_encode p g1 (take ?half (drop (?half + ?src) buf)) = (g2, out2)"
    using e2 by (simp add: add.commute)
  have h': "handle_after p g buf (Suc k) = g2"
    by (simp add: Let_def e1 e2')
  have u: "packed_unit p g buf k = out1 @ out2"
    by (simp add: packed_unit_def Let_def e1 e2')
  have nk: "(n - k) * ?G = ?G + (n - Suc k) * ?G"
  proof -
    have "n - k = Suc (n - Suc k)" using Suc.prems by simp
    then show ?thesis by (simp only: mult_Suc)
  qed
  have Z: "?Z = replicate 32 (CHR 0x00) @ replicate (?G - 32) (CHR 0x00)
                @ replicate ((n - Suc k) * ?G) (CHR 0x00)"
  proof -
    have "(n - k) * ?G = 32 + ((?G - 32) + (n - Suc k) * ?G)"
      using nk G32 by simp
    then show ?thesis by (simp only: replicate_add)
  qed
  have w1: "write_at (?U @ ?Z) (k * ?G) out1 =
      ?U @ out1 @ replicate (?G - 32) (CHR 0x00) @ replicate ((n - Suc k) * ?G) (CHR 0x00)"
    unfolding write_at_def by (subst (1 2) Z) (simp add: lenU l1)
  have w2: "write_at (?U @ out1 @ replicate (?G - 32) (CHR 0x00)
                @ replicate ((n - Suc k) * ?G) (CHR 0x00)) (k * ?G + 32) out2 =
      ?U @ out1 @ out2 @ replicate ((n - Suc k) * ?G) (CHR 0x00)"
    unfolding write_at_def by (simp add: lenU l1 l2)
  have step: "encode_frame p buf (?h, ?U @ ?Z, int k * GSM_FRAME_SIZE p) k =
      (g2, ?U @ out1 @ out2 @ replicate ((n - Suc k) * ?G) (CHR 0x00),
       int k * GSM_FRAME_SIZE p + GSM_FRAME_SIZE p)"
    by (simp add: encode_frame_def Let_def e1 e2 w1 w2)
  have "foldl (encode_frame p buf) (g, replicate (n * ?G) (CHR 0x00), 0) [0..<Suc k] =
      encode_frame p buf
        (foldl (encode_frame p buf) (g, replicate (n * ?G) (CHR 0x00), 0) [0..<k]) k"
    by simp
  also have "\<dots> = (g2, ?U @ out1 @ out2 @ replicate ((n - Suc k) * ?G) (CHR 0x00),
       int k * GSM_FRAME_SIZE p + GSM_FRAME_SIZE p)"
    by (simp only: IH step)
  also have "\<dots> = (handle_after p g buf (Suc k),
       concat (map (packed_unit p g buf) [0..<Suc k])
         @ replicate ((n - Suc k) * ?G) (CHR 0x00),
       int (Suc k) * GSM_FRAME_SIZE p)"
    by (simp add: h' u algebra_simps del: handle_after.simps)
  finally have "foldl (encode_frame p buf) (g, replicate (n * ?G) (CHR 0x00), 0) [0..<Suc k] =
      (handle_after p g buf (Suc k),
       concat (map (packed_unit p g buf) [0..<Suc k])
         @ replicate ((n - Suc k) * ?G) (CHR 0x00),
       int (Suc k) * GSM_FRAME_SIZE p)" .
  moreover have "\<not> idx (handle_after p g buf (Suc k))"
    using i2 h' by simp
  moreover have "length (concat (map (packed_unit p g buf) [0..<Suc k])) = Suc k * ?G"
    using G32 by (simp add: lenU u l1 l2)
  ultimately show ?case by blast
qed

lemma encode_buffer_packed:
  assumes "\<And>g b. idx (fst (gsm_encode p g b)) = (\<not> idx g)"
    and "\<And>g b. length (snd (gsm_encode p g b)) =
                (if idx g then nat (GSM_FRAME_SIZE p) - 32 else 32)"
    and "\<not> idx g" and "32 \<le> GSM_FRAME_SIZE p" and "0 \<le> FRAME_COUNT p"
  shows "voice_payload p g buf = packed_payload p g buf"
    and "voice_handle p g buf = handle_after p g buf (nat (FRAME_COUNT p))"
proof -
  let ?n = "nat (FRAME_COUNT p)"
  have F: "nat (FRN_AUDIO_PACKET_SIZE p) = ?n * nat (GSM_FRAME_SIZE p)"
    using assms(4,5) by (simp add: FRN_AUDIO_PACKET_SIZE_def nat_mult_distrib)
  note pre = encode_buffer_prefix [where k = ?n and n = ?n and buf = buf,
      OF assms(1,2,3,4) order_refl]
  from pre have e: "encode_buffer p g buf =
      (handle_after p g buf ?n, packed_payload p g buf, int ?n * GSM_FRAME_SIZE p)"
    by (simp add: encode_buffer_def F packed_payload_def)
  from pre have l: "length (packed_payload p g buf) = ?n * nat (GSM_FRAME_SIZE p)"
    by (simp add: packed_payload_def)
  have n: "nat (int ?n * GSM_FRAME_SIZE p) = ?n * nat (GSM_FRAME_SIZE p)"
    "nat (FRAME_COUNT p * GSM_FRAME_SIZE p) = ?n * nat (GSM_FRAME_SIZE p)"
    using assms(4,5) by (simp_all add: nat_mult_distrib)
  show "voice_payload p g buf = packed_payload p g buf"
    by (simp add: voice_payload_def e n l)
  show "voice_handle p g buf = handle_after p g buf ?n"
    by (simp add: voice_handle_def e)
qed

lemma flushSamples_always_signals:
  "\<exists>t' ws. flushSamples p t = Some t'
     \<and> trace t' = trace t @ ws @ [SourceAllSamplesFlushed]
     \<and> SourceAllSamplesFlushed \<notin> set ws"
proof (cases "state t = STATE_LOGGED_IN \<and> 0 < send_buffer_cnt t")
  case True
  then have "state t = STATE_LOGGED_IN" "0 < send_buffer_cnt t" by simp_all
  from flushSamples_partial [OF this, of p] show ?thesis
    by (intro exI [of _ "the (flushSamples p t)"]
          exI [of _ "(if tcp_connected t then [TcpWrite (''TX1'' @ newline)] else [])
               @ [TcpWrite (voice_payload p (gsmh t)
                    (zero_pad (send_buffer t) (send_buffer_cnt t)))]
               @ (if tcp_connected t then [TcpWrite (''TX0'' @ newline)] else [])"])
       simp
next
  case False
  then have "state t \<noteq> STATE_LOGGED_IN \<or> send_buffer_cnt t \<le> 0" by auto
  from flushSamples_idle [OF this, of p] show ?thesis
    by (intro exI [of _ "the (flushSamples p t)"] exI [of _ "[]"]) simp
qed

text \<open>
  Claim C5. In a \<open>LoggedIn\<close> session with \<open>0 < send_buffer_cnt < BUFFER_SIZE\<close>
  (over its open transport, the codec alternating as above), \<open>flushSamples\<close> pads the
  buffer with zeros to its full length: the first \<open>send_buffer_cnt\<close> samples are the
  buffered ones, all behind them are zero. It makes exactly one payload write, the
  concatenation of the packed units of that padded buffer; the payload follows the token
  \<open>TX1\<close> and is followed by the token \<open>TX0\<close>; the flag \<open>is_sending_voice\<close> is
  cleared whatever it was; and completion is signalled to the source last. In every
  session \<open>t\<close> whatever (any state, any fill count, a full buffer as well)
  \<open>flushSamples\<close> returns, and the last thing it does is to signal completion, once.
\<close>

theorem flushSamples_pads_and_sends:
  assumes "state s = STATE_LOGGED_IN" and "0 < send_buffer_cnt s"
    and "send_buffer_cnt s < BUFFER_SIZE p" and "buffer_ok p s" and "tcp_connected s"
    and "0 \<le> FRAME_COUNT p" and "32 \<le> GSM_FRAME_SIZE p"
    and "\<And>g b. idx (fst (gsm_encode p g b)) = (\<not> idx g)"
    and "\<And>g b. length (snd (gsm_encode p g b)) =
                (if idx g then nat (GSM_FRAME_SIZE p) - 32 else 32)"
    and "\<not> idx (gsmh s)"
  shows "flushSamples p s =
     Some (s\<lparr>send_buffer :=
               take (nat (send_buffer_cnt s)) (send_buffer s)
               @ replicate (nat (BUFFER_SIZE p - send_buffer_cnt s)) 0,
             gsmh := handle_after p (gsmh s)
               (take (nat (send_buffer_cnt s)) (send_buffer s)
                @ replicate (nat (BUFFER_SIZE p - send_buffer_cnt s)) 0)
               (nat (FRAME_COUNT p)),
             send_buffer_cnt := 0,
             is_sending_voice := False,
             trace := trace s @
               [TcpWrite (''TX1'' @ [CHR 0x0A]),
                TcpWrite (packed_payload p (gsmh s)
                  (take (nat (send_buffer_cnt s)) (send_buffer s)
                   @ replicate (nat (BUFFER_SIZE p - send_buffer_cnt s)) 0)),
                TcpWrite (''TX0'' @ [CHR 0x0A]),
                SourceAllSamplesFlushed]\<rparr>)
    \<and> int (length (packed_payload p (gsmh s)
                  (take (nat (send_buffer_cnt s)) (send_buffer s)
                   @ replicate (nat (BUFFER_SIZE p - send_buffer_cnt s)) 0)))
        = FRAME_COUNT p * GSM_FRAME_SIZE p
    \<and> int (length (take (nat (send_buffer_cnt s)) (send_buffer s)
                   @ replicate (nat (BUFFER_SIZE p - send_buffer_cnt s)) (0 :: short)))
        = BUFFER_SIZE p
    \<and> length (take (nat (send_buffer_cnt s)) (send_buffer s)) = nat (send_buffer_cnt s)
    \<and> (\<exists>t' ws. flushSamples p t = Some t'
          \<and> trace t' = trace t @ ws @ [SourceAllSamplesFlushed]
          \<and> SourceAllSamplesFlushed \<notin> set ws)"
proof -
  let ?padded = "take (nat (send_buffer_cnt s)) (send_buffer s)
      @ replicate (nat (BUFFER_SIZE p - send_buffer_cnt s)) 0"
  have z: "zero_pad (send_buffer s) (send_buffer_cnt s) = ?padded"
    using assms(2-4) by (auto simp: zero_pad_def buffer_ok_def nat_diff_distrib)
  have l: "int (length ?padded) = BUFFER_SIZE p"
    using assms(2-4) by (auto simp: buffer_ok_def)
  have c: "length (take (nat (send_buffer_cnt s)) (send_buffer s)) = nat (send_buffer_cnt s)"
    using assms(2-4) by (auto simp: buffer_ok_def)
  have lenge: "0 \<le> GSM_FRAME_SIZE p" using assms(7) by simp
  note pk = encode_buffer_packed [of idx p "gsmh s" ?padded, OF assms(8,9,10,7,6)]
  from flushSamples_partial [OF assms(1,2), of p] assms(5)
  have f: "flushSamples p s =
     Some (s\<lparr>send_buffer := ?padded,
             gsmh := handle_after p (gsmh s) ?padded (nat (FRAME_COUNT p)),
             send_buffer_cnt := 0,
             is_sending_voice := False,
             trace := trace s @
               [TcpWrite (''TX1'' @ [CHR 0x0A]),
                TcpWrite (packed_payload p (gsmh s) ?padded),
                TcpWrite (''TX0'' @ [CHR 0x0A]),
                SourceAllSamplesFlushed]\<rparr>)"
    by (simp add: z pk newline_def)
  have pl: "int (length (packed_payload p (gsmh s) ?padded))
      = FRAME_COUNT p * GSM_FRAME_SIZE p"
    using length_voice_payload [OF assms(6) lenge, of "gsmh s" ?padded] by (simp add: pk)
  from f pl l c flushSamples_always_signals [of p t] show ?thesis
    by blast
qed

text \<open>Facts of the concrete instance.\<close>

lemma demo_consts:
  "gsm_encode demo_params = demo_gsm_encode" "PCM_FRAME_SIZE demo_params = 320"
  "FRAME_COUNT demo_params = 5" "GSM_FRAME_SIZE demo_params = 65"
  "BUFFER_SIZE demo_params = 1600"
  by (simp_all add: demo_params_def BUFFER_SIZE_def)

lemma demo_handle_after: "handle_after demo_params g buf k = g"
  by (induction k) (simp_all add: demo_consts demo_gsm_encode_def Let_def)

lemma demo_bytes:
  "char_of (0 :: nat) = CHR 0x00" "char_of (5 :: nat) = CHR 0x05"
  "char_of (6 :: nat) = CHR 0x06" "char_of (7 :: nat) = CHR 0x07"
  by code_simp+

lemma demo_first_unit:
  "packed_unit demo_params False (5 # 6 # 7 # replicate 1597 0) 0
   = [CHR 0x05, CHR 0x06, CHR 0x07] @ replicate 62 (CHR 0x00)"
  by (simp add: packed_unit_def demo_handle_after Let_def demo_consts demo_gsm_encode_def
        demo_bytes replicate_add [symmetric])

lemma demo_later_units:
  "packed_unit demo_params False (5 # 6 # 7 # replicate 1597 0) (Suc 0) = replicate 65 (CHR 0x00)"
  "packed_unit demo_params False (5 # 6 # 7 # replicate 1597 0) 2 = replicate 65 (CHR 0x00)"
  "packed_unit demo_params False (5 # 6 # 7 # replicate 1597 0) 3 = replicate 65 (CHR 0x00)"
  "packed_unit demo_params False (5 # 6 # 7 # replicate 1597 0) 4 = replicate 65 (CHR 0x00)"
  by (simp_all add: packed_unit_def demo_handle_after Let_def demo_consts demo_gsm_encode_def
        demo_bytes replicate_add [symmetric])

lemma demo_payload:
  "packed_payload demo_params False (5 # 6 # 7 # replicate 1597 0)
   = [CHR 0x05, CHR 0x06, CHR 0x07] @ replicate 322 (CHR 0x00)"
proof -
  have "[0..<nat (FRAME_COUNT demo_params)] = [0, 1, 2, 3, 4]"
    by (simp add: demo_consts upt_rec)
  then show ?thesis
    by (simp add: packed_payload_def demo_first_unit demo_later_units
          replicate_add [symmetric])
qed

text \<open>
  Three buffered samples 5, 6, 7 in front of stale nines: the nines are replaced by
  zeros, the payload begins with the bytes of the three samples and is zero behind
  them, and the flag, which was set, is cleared. A flush of the full buffer signals
  completion as well.
\<close>

theorem flushSamples_pads_and_sends_witness:
  "state demo_partial = STATE_LOGGED_IN
   \<and> 0 < send_buffer_cnt demo_partial
   \<and> send_buffer_cnt demo_partial < BUFFER_SIZE demo_params
   \<and> buffer_ok demo_params demo_partial
   \<and> tcp_connected demo_partial
   \<and> is_sending_voice demo_partial
   \<and> send_buffer demo_partial = 5 # 6 # 7 # replicate 1597 9
   \<and> (\<forall>g b. fst (gsm_encode demo_params g b) = (\<not> g))
   \<and> (\<forall>g b. length (snd (gsm_encode demo_params g b)) =
                (if g then nat (GSM_FRAME_SIZE demo_params) - 32 else 32))
   \<and> \<not> gsmh demo_partial
   \<and> flushSamples demo_params demo_partial =
       Some (demo_partial\<lparr>send_buffer := 5 # 6 # 7 # replicate 1597 0,
               gsmh := False, send_buffer_cnt := 0, is_sending_voice := False,
               trace :=
                 [TcpWrite (''TX1'' @ [CHR 0x0A]),
                  TcpWrite ([CHR 0x05, CHR 0x06, CHR 0x07] @ replicate 322 (CHR 0x00)),
                  TcpWrite (''TX0'' @ [CHR 0x0A]),
                  SourceAllSamplesFlushed]\<rparr>)
   \<and> send_buffer_cnt demo_full = BUFFER_SIZE demo_params
   \<and> (\<exists>t' ws. flushSamples demo_params demo_full = Some t'
          \<and> trace t' = trace demo_full @ ws @ [SourceAllSamplesFlushed]
          \<and> SourceAllSamplesFlushed \<notin> set ws)"
proof -
  have h: "state demo_partial = STATE_LOGGED_IN" "0 < send_buffer_cnt demo_partial"
    "send_buffer_cnt demo_partial < BUFFER_SIZE demo_params"
    "buffer_ok demo_params demo_partial" "tcp_connected demo_partial"
    "0 \<le> FRAME_COUNT demo_params" "32 \<le> GSM_FRAME_SIZE demo_params"
    by (simp_all add: demo_partial_def demo_logged_in_def demo_qso_def demo_consts
          buffer_ok_def)
  have c: "\<And>g b. fst (gsm_encode demo_params g b) = (\<not> g)"
    "\<And>g b. length (snd (gsm_encode demo_params g b)) =
                (if g then nat (GSM_FRAME_SIZE demo_params) - 32 else 32)"
    by (auto simp add: demo_consts demo_gsm_encode_def)
  have e: "\<not> gsmh demo_partial" "is_sending_voice demo_partial"
    "send_buffer demo_partial = 5 # 6 # 7 # replicate 1597 9"
    "send_buffer_cnt demo_full = BUFFER_SIZE demo_params"
    by (simp_all add: demo_partial_def demo_full_def demo_logged_in_def demo_qso_def
          demo_consts)
  have g: "send_buffer_cnt demo_partial = 3" "gsmh demo_partial = False"
    "trace demo_partial = []"
    by (simp_all add: demo_partial_def demo_logged_in_def demo_qso_def)
  note r = flushSamples_pads_and_sends [of demo_partial demo_params "\<lambda>g. g" demo_full,
      OF h c e(1)]
  from r [THEN conjunct1] have a: "flushSamples demo_params demo_partial =
       Some (demo_partial\<lparr>send_buffer := 5 # 6 # 7 # replicate 1597 0,
               gsmh := False, send_buffer_cnt := 0, is_sending_voice := False,
               trace :=
                 [TcpWrite (''TX1'' @ [CHR 0x0A]),
                  TcpWrite ([CHR 0x05, CHR 0x06, CHR 0x07] @ replicate 322 (CHR 0x00)),
                  TcpWrite (''TX0'' @ [CHR 0x0A]),
                  SourceAllSamplesFlushed]\<rparr>)"
    by (simp add: g e(3) demo_consts demo_handle_after demo_payload)
  note b = r [THEN conjunct2, THEN conjunct2, THEN conjunct2, THEN conjunct2]
  from h(1-5) e c a b show ?thesis by blast
qed

text \<open>
  The buffer that \<open>flushSamples\<close> encodes begins with what was submitted: samples
  written to an empty buffer and then flushed are sent as the encoding of their
  conversions followed by zeros.
\<close>

lemma flush_after_write:
  assumes "state s = STATE_LOGGED_IN" and "send_buffer_cnt s = 0" and "buffer_ok p s"
    and "samples \<noteq> []" and "int (length samples) < BUFFER_SIZE p"
  shows "Option.bind (writeSamples p samples s) (\<lambda>r. flushSamples p (snd r)) =
     Some (s\<lparr>send_buffer :=
               map sample_to_short samples
               @ replicate (nat (BUFFER_SIZE p) - length samples) 0,
             gsmh := voice_handle p (gsmh s)
               (map sample_to_short samples
                @ replicate (nat (BUFFER_SIZE p) - length samples) 0),
             send_buffer_cnt := 0,
             is_sending_voice := False,
             trace := trace s
               @ (if tcp_connected s then [TcpWrite (''TX1'' @ newline)] else [])
               @ [TcpWrite (voice_payload p (gsmh s)
                    (map sample_to_short samples
                     @ replicate (nat (BUFFER_SIZE p) - length samples) 0))]
               @ (if tcp_connected s then [TcpWrite (''TX0'' @ newline)] else [])
               @ [SourceAllSamplesFlushed]\<rparr>)"
proof -
  let ?s1 = "s\<lparr>send_buffer := take (nat (send_buffer_cnt s)) (send_buffer s)
                 @ map sample_to_short samples
                 @ drop (nat (send_buffer_cnt s) + length samples) (send_buffer s),
              send_buffer_cnt := send_buffer_cnt s + int (length samples)\<rparr>"
  have w: "writeSamples p samples s = Some (int (length samples), ?s1)"
    using assms(1,3) assms(2,5) by (intro writeSamples_fits) simp_all
  have len: "length (send_buffer s) = nat (BUFFER_SIZE p)"
    using assms(3) by (simp add: buffer_ok_def)
  have z: "zero_pad (send_buffer ?s1) (send_buffer_cnt ?s1) =
      map sample_to_short samples @ replicate (nat (BUFFER_SIZE p) - length samples) 0"
    using assms(2,5) len by (simp add: zero_pad_def)
  have f: "flushSamples p ?s1 =
     Some (?s1\<lparr>send_buffer := zero_pad (send_buffer ?s1) (send_buffer_cnt ?s1),
             gsmh := voice_handle p (gsmh ?s1) (zero_pad (send_buffer ?s1) (send_buffer_cnt ?s1)),
             send_buffer_cnt := 0,
             is_sending_voice := False,
             trace := trace ?s1
               @ (if tcp_connected ?s1 then [TcpWrite (''TX1'' @ newline)] else [])
               @ [TcpWrite (voice_payload p (gsmh ?s1)
                    (zero_pad (send_buffer ?s1) (send_buffer_cnt ?s1)))]
               @ (if tcp_connected ?s1 then [TcpWrite (''TX0'' @ newline)] else [])
               @ [SourceAllSamplesFlushed]\<rparr>)"
    using assms(1,2,4) by (intro flushSamples_partial) simp_all
  show ?thesis
    unfolding w by (simp only: bind.bind_lunit snd_conv f z) simp
qed

text \<open>
  Claim C6. While \<open>LoggedIn\<close>, an inbound message whose leading byte is the voice
  code and whose length is not \<open>FRN_AUDIO_PACKET_SIZE + 3\<close> is dropped: nothing is
  written to the sink or to the transport, no state change is signalled, and the session
  state stays \<open>LoggedIn\<close>. All that \<open>onDataReceived\<close> does is to reset the
  inactivity timer and to set the informational flag \<open>is_receiving_voice\<close>.
\<close>

theorem short_voice_message_dropped:
  assumes "state s = STATE_LOGGED_IN"
    and "response_of p (first_byte data) = DT_VOICE_BUFFER"
    and "int (length data) \<noteq> FRN_AUDIO_PACKET_SIZE p + 3"
  shows "onDataReceived p data s =
     (int (length data),
      s\<lparr>is_receiving_voice := True, trace := trace s @ [ConTimeoutReset]\<rparr>)"
  using assms by (simp add: onDataReceived_def emit_def handleAudioData_def)

text \<open>A voice message of 327 bytes, one short of \<open>325 + 3\<close>.\<close>

theorem short_voice_message_dropped_witness:
  "state demo_logged_in = STATE_LOGGED_IN
   \<and> response_of demo_params (first_byte (CHR 0x02 # replicate 326 (CHR 0x00))) = DT_VOICE_BUFFER
   \<and> int (length (CHR 0x02 # replicate 326 (CHR 0x00))) = FRN_AUDIO_PACKET_SIZE demo_params + 3 - 1
   \<and> int (length (CHR 0x02 # replicate 326 (CHR 0x00))) \<noteq> FRN_AUDIO_PACKET_SIZE demo_params + 3
   \<and> onDataReceived demo_params (CHR 0x02 # replicate 326 (CHR 0x00)) demo_logged_in =
       (327, demo_logged_in\<lparr>is_receiving_voice := True, trace := [ConTimeoutReset]\<rparr>)"
proof -
  have h: "state demo_logged_in = STATE_LOGGED_IN"
    "response_of demo_params (first_byte (CHR 0x02 # replicate 326 (CHR 0x00))) = DT_VOICE_BUFFER"
    "int (length (CHR 0x02 # replicate 326 (CHR 0x00))) \<noteq> FRN_AUDIO_PACKET_SIZE demo_params + 3"
    by (simp_all add: demo_logged_in_def demo_qso_def demo_params_def demo_response_of_def
          first_byte_def FRN_AUDIO_PACKET_SIZE_def)
  have g: "int (length (CHR 0x02 # replicate 326 (CHR 0x00))) = FRN_AUDIO_PACKET_SIZE demo_params + 3 - 1"
    "trace demo_logged_in = []"
    by (simp_all add: demo_logged_in_def demo_qso_def demo_params_def FRN_AUDIO_PACKET_SIZE_def)
  from short_voice_message_dropped [OF h] g(2) have
    "onDataReceived demo_params (CHR 0x02 # replicate 326 (CHR 0x00)) demo_logged_in =
       (327, demo_logged_in\<lparr>is_receiving_voice := True, trace := [ConTimeoutReset]\<rparr>)"
    by simp
  with h g(1) show ?thesis by blast
qed

subsection \<open>Sample conversion\<close>

lemma sint_short: "- 32768 \<le> k \<Longrightarrow> k < 32768 \<Longrightarrow> sint (word_of_int k :: short) = k"
  by (simp add: sint_sbintrunc' signed_take_bit_int_eq_self)

lemma trunc_toward_zero_bounds:
  "- 1 \<le> x \<Longrightarrow> x \<le> 1 \<Longrightarrow>
   - 32767 \<le> trunc_toward_zero (32767 * x) \<and> trunc_toward_zero (32767 * x) \<le> 32767"
  unfolding trunc_toward_zero_def
  by (auto simp: le_floor_iff floor_le_iff ceiling_le_iff le_ceiling_iff)

lemma trunc_toward_zero_close: "\<bar>real_of_int (trunc_toward_zero y) - y\<bar> < 1"
  unfolding trunc_toward_zero_def by (auto; linarith)

lemma sint_sample_to_short:
  "sint (sample_to_short x) =
    (if 1 \<le> x then 32767 else if x \<le> - 1 then - 32767
     else trunc_toward_zero (32767 * x))"
proof -
  consider "1 < x" | "x = 1" | "x < - 1" | "x = - 1" | "- 1 < x" "x < 1" by linarith
  then show ?thesis
  proof cases
    case 5
    then have "sint (sample_to_short x) = trunc_toward_zero (32767 * x)"
      using trunc_toward_zero_bounds [of x] by (simp add: sample_to_short_def sint_short)
    with 5 show ?thesis by simp
  qed (simp_all add: sample_to_short_def trunc_toward_zero_def)
qed

subsection \<open>Every call of \<open>writeSamples\<close>\<close>

lemma full_chunks_short: "length xs < n \<Longrightarrow> full_chunks n xs = []"
  by (subst full_chunks.simps) simp

lemma full_chunks_append:
  "0 < n \<Longrightarrow> length xs = n \<Longrightarrow> full_chunks n (xs @ ys) = xs # full_chunks n ys"
  by (subst full_chunks.simps) simp

lemma drop_keep_tail:
  "r \<le> length ys \<Longrightarrow> drop (length (xs @ ys) - r) (xs @ ys) = drop (length ys - r) ys"
  by simp

text \<open>One turn of the \<open>while\<close> loop.\<close>

lemma writeSamples_loop_step:
  assumes ok: "buffer_ok p s" and sr: "sr < length samples"
    and k: "k = min (nat (BUFFER_SIZE p) - nat (send_buffer_cnt s)) (length samples - sr)"
    and s1: "s1 = s\<lparr>send_buffer :=
                 take (nat (send_buffer_cnt s)) (send_buffer s)
                 @ map sample_to_short (take k (drop sr samples))
                 @ drop (nat (send_buffer_cnt s) + k) (send_buffer s),
               send_buffer_cnt := send_buffer_cnt s + int k\<rparr>"
  shows "writeSamples_loop p samples (int sr) s =
     (if send_buffer_cnt s + int k = BUFFER_SIZE p then
        if is_sending_voice s then
          Option.bind (sendVoiceData p s1)
            (\<lambda>s2. writeSamples_loop p samples (int (sr + k)) s2)
        else Some (int (sr + k), s1)
      else writeSamples_loop p samples (int (sr + k)) s1)"
proof -
  from ok have b: "0 \<le> send_buffer_cnt s" "send_buffer_cnt s \<le> BUFFER_SIZE p"
    "length (send_buffer s) = nat (BUFFER_SIZE p)"
    by (simp_all add: buffer_ok_def)
  have kk: "nat (min (BUFFER_SIZE p - send_buffer_cnt s) (int (length samples) - int sr)) = k"
    using b sr unfolding k by (simp add: min_def nat_diff_distrib)
  have kb: "nat (send_buffer_cnt s) + k \<le> length (send_buffer s)" "sr + k \<le> length samples"
    using b sr unfolding k by simp_all
  have f: "fill k samples (int sr) s = (int sr + int k, s1)"
    unfolding s1 using b kb by (subst fill_spec) simp_all
  have lt: "int sr < int (length samples)" using sr by simp
  show ?thesis
    apply (subst writeSamples_loop.simps)
    apply (simp only: lt if_True kk f prod.case)
    apply (simp add: s1)
    done
qed


text \<open>Without the permission to transmit the loop stops at the full buffer.\<close>

lemma writeSamples_unauthorised:
  assumes st: "state s = STATE_LOGGED_IN" and nv: "\<not> is_sending_voice s"
    and ok: "buffer_ok p s"
    and n: "n = min (length samples) (nat (BUFFER_SIZE p) - nat (send_buffer_cnt s))"
  shows "writeSamples p samples s =
     Some (int n,
           s\<lparr>send_buffer :=
                take (nat (send_buffer_cnt s)) (send_buffer s)
                @ map sample_to_short (take n samples)
                @ drop (nat (send_buffer_cnt s) + n) (send_buffer s),
              send_buffer_cnt := send_buffer_cnt s + int n\<rparr>)"
proof (cases "samples = []")
  case True
  with st n show ?thesis
    by (simp add: writeSamples_def writeSamples_loop_done)
next
  case False
  let ?s1 = "s\<lparr>send_buffer :=
                take (nat (send_buffer_cnt s)) (send_buffer s)
                @ map sample_to_short (take n (drop 0 samples))
                @ drop (nat (send_buffer_cnt s) + n) (send_buffer s),
              send_buffer_cnt := send_buffer_cnt s + int n\<rparr>"
  from ok have b: "0 \<le> send_buffer_cnt s" "send_buffer_cnt s \<le> BUFFER_SIZE p"
    by (simp_all add: buffer_ok_def)
  have sr: "0 < length samples" using False by simp
  have k: "n = min (nat (BUFFER_SIZE p) - nat (send_buffer_cnt s)) (length samples - 0)"
    unfolding n by (simp add: min.commute)
  note step = writeSamples_loop_step [OF ok sr k refl]
  have w: "writeSamples p samples s = writeSamples_loop p samples (int 0) s"
    using st by (simp add: writeSamples_def)
  show ?thesis
  proof (cases "send_buffer_cnt s + int n = BUFFER_SIZE p")
    case True
    with step nv have "writeSamples_loop p samples (int 0) s = Some (int (0 + n), ?s1)"
      by simp
    with w show ?thesis by simp
  next
    case False
    with b have "n = length samples" unfolding n by (simp add: min_def split: if_splits)
    moreover from step False
    have "writeSamples_loop p samples (int 0) s = writeSamples_loop p samples (int (0 + n)) ?s1"
      by simp
    ultimately have "writeSamples_loop p samples (int 0) s = Some (int n, ?s1)"
      by (simp add: writeSamples_loop_done)
    with w show ?thesis by simp
  qed
qed

text \<open>
  With the permission to transmit every sample is accepted. The stream of values,
  those buffered before followed by the conversions of the samples, is sent in full
  buffers; the rest of the stream stays at the front of the buffer.
\<close>

lemma writeSamples_loop_sending:
  assumes "is_sending_voice s" and "buffer_ok p s" and "0 < BUFFER_SIZE p"
    and "send_buffer_cnt s < BUFFER_SIZE p" and "sr < length samples"
  shows "\<exists>b'. writeSamples_loop p samples (int sr) s =
      Some (int (length samples),
            s\<lparr>send_buffer := b',
              gsmh := foldl (voice_handle p) (gsmh s)
                (full_chunks (nat (BUFFER_SIZE p))
                   (take (nat (send_buffer_cnt s)) (send_buffer s)
                    @ map sample_to_short (drop sr samples))),
              send_buffer_cnt :=
                int (length (take (nat (send_buffer_cnt s)) (send_buffer s)
                             @ map sample_to_short (drop sr samples))
                     mod nat (BUFFER_SIZE p)),
              trace := trace s @ payload_writes p (tcp_connected s) (gsmh s)
                (full_chunks (nat (BUFFER_SIZE p))
                   (take (nat (send_buffer_cnt s)) (send_buffer s)
                    @ map sample_to_short (drop sr samples)))\<rparr>)
    \<and> length b' = nat (BUFFER_SIZE p)
    \<and> take (length (take (nat (send_buffer_cnt s)) (send_buffer s)
                     @ map sample_to_short (drop sr samples))
             mod nat (BUFFER_SIZE p)) b'
      = drop (length (take (nat (send_buffer_cnt s)) (send_buffer s)
                      @ map sample_to_short (drop sr samples))
              - length (take (nat (send_buffer_cnt s)) (send_buffer s)
                        @ map sample_to_short (drop sr samples))
                mod nat (BUFFER_SIZE p))
          (take (nat (send_buffer_cnt s)) (send_buffer s)
           @ map sample_to_short (drop sr samples))"
  using assms
proof (induction "length samples - sr" arbitrary: sr s rule: less_induct)
  case less
  let ?B = "nat (BUFFER_SIZE p)"
  let ?c = "nat (send_buffer_cnt s)"
  let ?m = "length samples - sr"
  let ?pre = "take ?c (send_buffer s)"
  let ?stream = "?pre @ map sample_to_short (drop sr samples)"
  from less.prems have sv: "is_sending_voice s" and ok: "buffer_ok p s"
    and Bpos: "0 < BUFFER_SIZE p" and clt: "send_buffer_cnt s < BUFFER_SIZE p"
    and sr: "sr < length samples"
    by simp_all
  from ok have b: "0 \<le> send_buffer_cnt s" "length (send_buffer s) = ?B"
    by (simp_all add: buffer_ok_def)
  have cB: "?c < ?B" using b clt by simp
  have lpre: "length ?pre = ?c" using b cB by simp
  have lstream: "length ?stream = ?c + ?m" using lpre by simp
  define k where "k = min (?B - ?c) ?m"
  define b1 where "b1 = ?pre @ map sample_to_short (take k (drop sr samples))
                        @ drop (?c + k) (send_buffer s)"
  define s1 where "s1 = s\<lparr>send_buffer := b1, send_buffer_cnt := send_buffer_cnt s + int k\<rparr>"
  have kpos: "0 < k" using cB sr by (simp add: k_def)
  note step = writeSamples_loop_step [OF ok sr k_def, of s1, unfolded b1_def [symmetric],
      OF s1_def]
  show ?case
  proof (cases "?c + ?m < ?B")
    case True
    then have km: "k = ?m" by (simp add: k_def)
    have ne: "send_buffer_cnt s + int k \<noteq> BUFFER_SIZE p"
      using True b km by linarith
    have "writeSamples_loop p samples (int sr) s = writeSamples_loop p samples (int (sr + k)) s1"
      using step ne by simp
    also have "\<dots> = Some (int (length samples), s1)"
      using sr km by (simp add: writeSamples_loop_done)
    finally have r: "writeSamples_loop p samples (int sr) s = Some (int (length samples), s1)" .
    have fc: "full_chunks ?B ?stream = []"
      using True lstream by (intro full_chunks_short) simp
    have md: "length ?stream mod ?B = ?c + ?m"
      using True lstream by simp
    have tk: "take (?c + ?m) b1 = ?stream"
      using lpre km sr by (simp add: b1_def)
    have lb1: "length b1 = ?B"
      using b cB True km by (simp add: b1_def)
    have eq: "s1 = s\<lparr>send_buffer := b1,
              gsmh := foldl (voice_handle p) (gsmh s) (full_chunks ?B ?stream),
              send_buffer_cnt := int (length ?stream mod ?B),
              trace := trace s @ payload_writes p (tcp_connected s) (gsmh s)
                (full_chunks ?B ?stream)\<rparr>"
      unfolding fc md using b km by (simp add: s1_def)
    have z: "length ?stream - (?c + ?m) = 0" using lstream by simp
    have third: "take (length ?stream mod ?B) b1
        = drop (length ?stream - length ?stream mod ?B) ?stream"
      by (simp only: md z drop_0 tk)
    show ?thesis
      apply (rule exI [of _ b1])
      apply (intro conjI)
        apply (simp only: r eq [symmetric])
       apply (rule lb1)
      apply (rule third)
      done
  next
    case False
    then have kB: "k = ?B - ?c" by (simp add: k_def)
    have full: "send_buffer_cnt s + int k = BUFFER_SIZE p"
      using b cB kB by linarith
    have kle: "k \<le> ?m" by (simp add: k_def)
    have b1': "b1 = ?pre @ map sample_to_short (take k (drop sr samples))"
      using b kB cB by (simp add: b1_def)
    have ck: "?c + k = ?B" using cB kB by linarith
    have ltk: "length (map sample_to_short (take k (drop sr samples))) = k"
      using kle by simp
    have lb1: "length b1 = ?B"
      unfolding b1' by (simp only: length_append lpre ltk ck)
    define s2 where "s2 = s1\<lparr>gsmh := voice_handle p (gsmh s1) (send_buffer s1),
             send_buffer_cnt := 0,
             trace := trace s1
               @ (if tcp_connected s1 then [TcpWrite (''TX1'' @ newline)] else [])
               @ [TcpWrite (voice_payload p (gsmh s1) (send_buffer s1))]\<rparr>"
    have sv1: "sendVoiceData p s1 = Some s2"
      unfolding s2_def by (rule sendVoiceData_full) (simp add: s1_def full)
    have r: "writeSamples_loop p samples (int sr) s =
        writeSamples_loop p samples (int (sr + k)) s2"
      using step full sv by (simp add: sv1)
    let ?rest = "map sample_to_short (drop (sr + k) samples)"
    have split: "?stream = b1 @ ?rest"
      unfolding b1'
      by (simp add: take_map [symmetric] drop_map [symmetric] add.commute
            del: take_map drop_map)
        (metis append_take_drop_id drop_drop add.commute)
    have fc: "full_chunks ?B ?stream = b1 # full_chunks ?B ?rest"
      unfolding split using cB lb1 by (intro full_chunks_append) simp_all
    have md: "length ?stream mod ?B = length ?rest mod ?B"
      unfolding split using lb1 by simp
    have dr: "drop (length ?stream - length ?rest mod ?B) ?stream
        = drop (length ?rest - length ?rest mod ?B) ?rest"
      unfolding split by (rule drop_keep_tail) (rule mod_less_eq_dividend)
    have g2: "gsmh s2 = voice_handle p (gsmh s) b1" "tcp_connected s2 = tcp_connected s"
      "trace s2 = trace s @ (if tcp_connected s then [TcpWrite (''TX1'' @ [CHR 0x0A])] else [])
                  @ [TcpWrite (voice_payload p (gsmh s) b1)]"
      "send_buffer_cnt s2 = 0" "send_buffer s2 = b1" "is_sending_voice s2"
      using sv by (simp_all add: s2_def s1_def newline_def)
    have ok2: "buffer_ok p s2"
      using Bpos lb1 by (simp add: buffer_ok_def g2)
    show ?thesis
    proof (cases "sr + k = length samples")
      case True
      then have rest: "?rest = []" by simp
      have "writeSamples_loop p samples (int (sr + k)) s2 = Some (int (length samples), s2)"
        using True by (simp add: writeSamples_loop_done)
      with r have r': "writeSamples_loop p samples (int sr) s = Some (int (length samples), s2)"
        by simp
      have eq: "s2 = s\<lparr>send_buffer := b1,
              gsmh := foldl (voice_handle p) (gsmh s) (full_chunks ?B ?stream),
              send_buffer_cnt := int (length ?stream mod ?B),
              trace := trace s @ payload_writes p (tcp_connected s) (gsmh s)
                (full_chunks ?B ?stream)\<rparr>"
        unfolding fc md rest
        by (simp add: s2_def s1_def newline_def full_chunks_short Bpos)
      show ?thesis
        apply (rule exI [of _ b1])
        apply (intro conjI)
          apply (simp only: r' eq [symmetric])
         apply (rule lb1)
        apply (simp only: md rest)
        apply simp
        done
    next
      case False
      with kle sr have sr2: "sr + k < length samples" by simp
      have less2: "length samples - (sr + k) < length samples - sr"
        using kpos sr by simp
      have c2: "send_buffer_cnt s2 < BUFFER_SIZE p" using Bpos by (simp add: g2)
      from less.hyps [OF less2 g2(6) ok2 Bpos c2 sr2]
      obtain b' where
        r2: "writeSamples_loop p samples (int (sr + k)) s2 =
          Some (int (length samples),
            s2\<lparr>send_buffer := b',
              gsmh := foldl (voice_handle p) (gsmh s2) (full_chunks ?B ?rest),
              send_buffer_cnt := int (length ?rest mod ?B),
              trace := trace s2 @ payload_writes p (tcp_connected s2) (gsmh s2)
                (full_chunks ?B ?rest)\<rparr>)"
        and lb': "length b' = ?B"
        and tb': "take (length ?rest mod ?B) b' = drop (length ?rest - length ?rest mod ?B) ?rest"
        by (auto simp: g2)
      have eq: "s2\<lparr>send_buffer := b',
              gsmh := foldl (voice_handle p) (gsmh s2) (full_chunks ?B ?rest),
              send_buffer_cnt := int (length ?rest mod ?B),
              trace := trace s2 @ payload_writes p (tcp_connected s2) (gsmh s2)
                (full_chunks ?B ?rest)\<rparr>
          = s\<lparr>send_buffer := b',
              gsmh := foldl (voice_handle p) (gsmh s) (full_chunks ?B ?stream),
              send_buffer_cnt := int (length ?stream mod ?B),
              trace := trace s @ payload_writes p (tcp_connected s) (gsmh s)
                (full_chunks ?B ?stream)\<rparr>"
        unfolding fc md g2 by (simp add: s2_def s1_def)
      show ?thesis
        apply (rule exI [of _ b'])
        apply (intro conjI)
          apply (simp only: r r2 eq)
         apply (rule lb')
        apply (simp only: md dr tb')
        done
    qed
  qed
qed

lemma writeSamples_sending:
  assumes st: "state s = STATE_LOGGED_IN" and sv: "is_sending_voice s"
    and ok: "buffer_ok p s" and Bpos: "0 < BUFFER_SIZE p" and ne: "samples \<noteq> []"
  shows "\<exists>b'. writeSamples p samples s =
      Some (int (length samples),
            s\<lparr>send_buffer := b',
              gsmh := foldl (voice_handle p) (gsmh s)
                (full_chunks (nat (BUFFER_SIZE p))
                   (take (nat (send_buffer_cnt s)) (send_buffer s)
                    @ map sample_to_short samples)),
              send_buffer_cnt :=
                int (length (take (nat (send_buffer_cnt s)) (send_buffer s)
                             @ map sample_to_short samples)
                     mod nat (BUFFER_SIZE p)),
              trace := trace s @ payload_writes p (tcp_connected s) (gsmh s)
                (full_chunks (nat (BUFFER_SIZE p))
                   (take (nat (send_buffer_cnt s)) (send_buffer s)
                    @ map sample_to_short samples))\<rparr>)
    \<and> length b' = nat (BUFFER_SIZE p)
    \<and> take (length (take (nat (send_buffer_cnt s)) (send_buffer s)
                     @ map sample_to_short samples)
             mod nat (BUFFER_SIZE p)) b'
      = drop (length (take (nat (send_buffer_cnt s)) (send_buffer s)
                      @ map sample_to_short samples)
              - length (take (nat (send_buffer_cnt s)) (send_buffer s)
                        @ map sample_to_short samples)
                mod nat (BUFFER_SIZE p))
          (take (nat (send_buffer_cnt s)) (send_buffer s)
           @ map sample_to_short samples)"
proof -
  let ?B = "nat (BUFFER_SIZE p)"
  let ?rest = "map sample_to_short samples"
  from ok have b: "0 \<le> send_buffer_cnt s" "send_buffer_cnt s \<le> BUFFER_SIZE p"
    "length (send_buffer s) = ?B"
    by (simp_all add: buffer_ok_def)
  have sr: "0 < length samples" using ne by simp
  have w: "writeSamples p samples s = writeSamples_loop p samples (int 0) s"
    using st by (simp add: writeSamples_def)
  show ?thesis
  proof (cases "send_buffer_cnt s < BUFFER_SIZE p")
    case True
    from writeSamples_loop_sending [OF sv ok Bpos True sr] show ?thesis
      by (simp only: w drop_0)
  next
    case False
    with b have full: "send_buffer_cnt s = BUFFER_SIZE p" by simp
    have tk: "take (nat (send_buffer_cnt s)) (send_buffer s) = send_buffer s"
      using b full by simp
    have k: "0 = min (?B - nat (send_buffer_cnt s)) (length samples - 0)"
      using full by simp
    have s1: "s = s\<lparr>send_buffer :=
                 take (nat (send_buffer_cnt s)) (send_buffer s)
                 @ map sample_to_short (take 0 (drop 0 samples))
                 @ drop (nat (send_buffer_cnt s) + 0) (send_buffer s),
               send_buffer_cnt := send_buffer_cnt s + int 0\<rparr>"
      by simp
    define s2 where "s2 = s\<lparr>gsmh := voice_handle p (gsmh s) (send_buffer s),
             send_buffer_cnt := 0,
             trace := trace s
               @ (if tcp_connected s then [TcpWrite (''TX1'' @ newline)] else [])
               @ [TcpWrite (voice_payload p (gsmh s) (send_buffer s))]\<rparr>"
    have sv1: "sendVoiceData p s = Some s2"
      unfolding s2_def using full by (rule sendVoiceData_full)
    from writeSamples_loop_step [OF ok sr k s1] full sv
    have r: "writeSamples_loop p samples (int 0) s = writeSamples_loop p samples (int 0) s2"
      by (simp add: sv1)
    have g2: "gsmh s2 = voice_handle p (gsmh s) (send_buffer s)"
      "tcp_connected s2 = tcp_connected s"
      "trace s2 = trace s @ (if tcp_connected s then [TcpWrite (''TX1'' @ [CHR 0x0A])] else [])
                  @ [TcpWrite (voice_payload p (gsmh s) (send_buffer s))]"
      "send_buffer_cnt s2 = 0" "send_buffer s2 = send_buffer s" "is_sending_voice s2"
      using sv by (simp_all add: s2_def newline_def)
    have ok2: "buffer_ok p s2"
      using Bpos b by (simp add: buffer_ok_def g2)
    have c2: "send_buffer_cnt s2 < BUFFER_SIZE p" using Bpos by (simp add: g2)
    from writeSamples_loop_sending [OF g2(6) ok2 Bpos c2 sr]
    obtain b' where
      r2: "writeSamples_loop p samples (int 0) s2 =
          Some (int (length samples),
            s2\<lparr>send_buffer := b',
              gsmh := foldl (voice_handle p) (gsmh s2) (full_chunks ?B ?rest),
              send_buffer_cnt := int (length ?rest mod ?B),
              trace := trace s2 @ payload_writes p (tcp_connected s2) (gsmh s2)
                (full_chunks ?B ?rest)\<rparr>)"
      and lb': "length b' = ?B"
      and tb': "take (length ?rest mod ?B) b' = drop (length ?rest - length ?rest mod ?B) ?rest"
      by (auto simp: g2)
    have Bn: "0 < ?B" using Bpos by simp
    have fc: "full_chunks ?B (send_buffer s @ ?rest) = send_buffer s # full_chunks ?B ?rest"
      using Bn b(3) by (rule full_chunks_append)
    have md: "length (send_buffer s @ ?rest) mod ?B = length ?rest mod ?B"
      using b(3) by simp
    have dr: "drop (length (send_buffer s @ ?rest) - length ?rest mod ?B) (send_buffer s @ ?rest)
        = drop (length ?rest - length ?rest mod ?B) ?rest"
      by (rule drop_keep_tail) (rule mod_less_eq_dividend)
    have eq: "s2\<lparr>send_buffer := b',
              gsmh := foldl (voice_handle p) (gsmh s2) (full_chunks ?B ?rest),
              send_buffer_cnt := int (length ?rest mod ?B),
              trace := trace s2 @ payload_writes p (tcp_connected s2) (gsmh s2)
                (full_chunks ?B ?rest)\<rparr>
          = s\<lparr>send_buffer := b',
              gsmh := foldl (voice_handle p) (gsmh s) (full_chunks ?B (send_buffer s @ ?rest)),
              send_buffer_cnt := int (length (send_buffer s @ ?rest) mod ?B),
              trace := trace s @ payload_writes p (tcp_connected s) (gsmh s)
                (full_chunks ?B (send_buffer s @ ?rest))\<rparr>"
      unfolding fc md g2 by (simp add: s2_def)
    show ?thesis
      apply (rule exI [of _ b'])
      apply (intro conjI)
        apply (simp only: w r r2 eq tk)
       apply (rule lb')
      apply (simp only: tk md dr tb')
      done
  qed
qed

text \<open>
  Claim C7, as amended. While \<open>LoggedIn\<close>, whatever the call does with the buffer,
  every sample that \<open>writeSamples\<close> accepts enters the session as its conversion
  \<open>sample_to_short\<close>, in order. Without the permission to transmit the call accepts
  the first \<open>n\<close> samples, as many as fit, and stores their conversions behind the
  samples already buffered. With the permission it accepts them all: the stream made
  of the buffered samples and the conversions of the new ones is sent buffer by buffer,
  and the rest of the stream is left at the front of the buffer. The conversion is the
  hard clamp: a sample \<open>x \<ge> 1\<close> becomes 32767, a sample \<open>x \<le> -1\<close> becomes -32767
  (the negative of the largest value, not the least 16-bit value -32768), and a sample
  strictly in between becomes \<open>32767 \<times> x\<close> with the fractional part discarded: rounded
  down where \<open>x\<close> is positive, rounded up where it is negative.
\<close>

theorem writeSamples_clamps:
  assumes "state s = STATE_LOGGED_IN" and "buffer_ok p s" and "0 < BUFFER_SIZE p"
  shows "(\<not> is_sending_voice s \<longrightarrow>
       writeSamples p samples s =
         Some (int (min (length samples) (nat (BUFFER_SIZE p) - nat (send_buffer_cnt s))),
           s\<lparr>send_buffer :=
                take (nat (send_buffer_cnt s)) (send_buffer s)
                @ map sample_to_short
                    (take (min (length samples)
                             (nat (BUFFER_SIZE p) - nat (send_buffer_cnt s))) samples)
                @ drop (nat (send_buffer_cnt s)
                        + min (length samples)
                            (nat (BUFFER_SIZE p) - nat (send_buffer_cnt s)))
                    (send_buffer s),
              send_buffer_cnt := send_buffer_cnt s
                + int (min (length samples)
                         (nat (BUFFER_SIZE p) - nat (send_buffer_cnt s)))\<rparr>))
    \<and> (is_sending_voice s \<and> samples \<noteq> [] \<longrightarrow>
       (\<exists>b'. writeSamples p samples s =
          Some (int (length samples),
            s\<lparr>send_buffer := b',
              gsmh := foldl (voice_handle p) (gsmh s)
                (full_chunks (nat (BUFFER_SIZE p))
                   (take (nat (send_buffer_cnt s)) (send_buffer s)
                    @ map sample_to_short samples)),
              send_buffer_cnt :=
                int (length (take (nat (send_buffer_cnt s)) (send_buffer s)
                             @ map sample_to_short samples)
                     mod nat (BUFFER_SIZE p)),
              trace := trace s @ payload_writes p (tcp_connected s) (gsmh s)
                (full_chunks (nat (BUFFER_SIZE p))
                   (take (nat (send_buffer_cnt s)) (send_buffer s)
                    @ map sample_to_short samples))\<rparr>)
        \<and> length b' = nat (BUFFER_SIZE p)
        \<and> take (length (take (nat (send_buffer_cnt s)) (send_buffer s)
                         @ map sample_to_short samples)
                 mod nat (BUFFER_SIZE p)) b'
          = drop (length (take (nat (send_buffer_cnt s)) (send_buffer s)
                          @ map sample_to_short samples)
                  - length (take (nat (send_buffer_cnt s)) (send_buffer s)
                            @ map sample_to_short samples)
                    mod nat (BUFFER_SIZE p))
              (take (nat (send_buffer_cnt s)) (send_buffer s)
               @ map sample_to_short samples)))
    \<and> writeSamples p [] s = Some (0, s)
    \<and> sint (sample_to_short x) =
        (if 1 \<le> x then 32767
         else if x \<le> - 1 then - 32767
         else if 0 \<le> x then \<lfloor>32767 * x\<rfloor>
         else \<lceil>32767 * x\<rceil>)"
proof -
  have a: "\<not> is_sending_voice s \<longrightarrow>
       writeSamples p samples s =
         Some (int (min (length samples) (nat (BUFFER_SIZE p) - nat (send_buffer_cnt s))),
           s\<lparr>send_buffer :=
                take (nat (send_buffer_cnt s)) (send_buffer s)
                @ map sample_to_short
                    (take (min (length samples)
                             (nat (BUFFER_SIZE p) - nat (send_buffer_cnt s))) samples)
                @ drop (nat (send_buffer_cnt s)
                        + min (length samples)
                            (nat (BUFFER_SIZE p) - nat (send_buffer_cnt s)))
                    (send_buffer s),
              send_buffer_cnt := send_buffer_cnt s
                + int (min (length samples)
                         (nat (BUFFER_SIZE p) - nat (send_buffer_cnt s)))\<rparr>)"
    using writeSamples_unauthorised [OF assms(1) _ assms(2) refl] by blast
  have b: "is_sending_voice s \<and> samples \<noteq> [] \<longrightarrow>
       (\<exists>b'. writeSamples p samples s =
          Some (int (length samples),
            s\<lparr>send_buffer := b',
              gsmh := foldl (voice_handle p) (gsmh s)
                (full_chunks (nat (BUFFER_SIZE p))
                   (take (nat (send_buffer_cnt s)) (send_buffer s)
                    @ map sample_to_short samples)),
              send_buffer_cnt :=
                int (length (take (nat (send_buffer_cnt s)) (send_buffer s)
                             @ map sample_to_short samples)
                     mod nat (BUFFER_SIZE p)),
              trace := trace s @ payload_writes p (tcp_connected s) (gsmh s)
                (full_chunks (nat (BUFFER_SIZE p))
                   (take (nat (send_buffer_cnt s)) (send_buffer s)
                    @ map sample_to_short samples))\<rparr>)
        \<and> length b' = nat (BUFFER_SIZE p)
        \<and> take (length (take (nat (send_buffer_cnt s)) (send_buffer s)
                         @ map sample_to_short samples)
                 mod nat (BUFFER_SIZE p)) b'
          = drop (length (take (nat (send_buffer_cnt s)) (send_buffer s)
                          @ map sample_to_short samples)
                  - length (take (nat (send_buffer_cnt s)) (send_buffer s)
                            @ map sample_to_short samples)
                    mod nat (BUFFER_SIZE p))
              (take (nat (send_buffer_cnt s)) (send_buffer s)
               @ map sample_to_short samples))"
    using writeSamples_sending [OF assms(1) _ assms(2,3)] by blast
  have c: "writeSamples p [] s = Some (0, s)"
    using assms(1) by (simp add: writeSamples_def writeSamples_loop_done)
  have d: "sint (sample_to_short x) =
        (if 1 \<le> x then 32767
         else if x \<le> - 1 then - 32767
         else if 0 \<le> x then \<lfloor>32767 * x\<rfloor>
         else \<lceil>32767 * x\<rceil>)"
    by (simp add: sint_sample_to_short trunc_toward_zero_def)
  from a b c d show ?thesis by blast
qed

text \<open>
  Four samples offered to the logged-in session whose buffer has room for two. With
  the permission to transmit all four are accepted: the buffer, filled with the
  conversions -32767 and 32767 of the first two, is sent, and the conversions of the
  other two, -16383 (rounded up from -16383.5) and 8191 (rounded down from 8191.75)
  are at the front of the buffer. Without the permission two are accepted.
\<close>

theorem writeSamples_clamps_witness:
  "state demo_nearly_full = STATE_LOGGED_IN
   \<and> buffer_ok demo_params demo_nearly_full
   \<and> 0 < BUFFER_SIZE demo_params
   \<and> is_sending_voice demo_nearly_full
   \<and> send_buffer_cnt demo_nearly_full = 1598
   \<and> (\<exists>b'. writeSamples demo_params [- 2, 3 / 2, - 1 / 2, 1 / 4] demo_nearly_full =
          Some (4,
            demo_nearly_full\<lparr>send_buffer := b',
              gsmh := voice_handle demo_params False (replicate 1598 0 @ [- 32767, 32767]),
              send_buffer_cnt := 2,
              trace :=
                [TcpWrite (''TX1'' @ [CHR 0x0A]),
                 TcpWrite (voice_payload demo_params False
                             (replicate 1598 0 @ [- 32767, 32767]))]\<rparr>)
        \<and> length b' = 1600
        \<and> take 2 b' = [- 16383, 8191])
   \<and> writeSamples demo_params [- 2, 3 / 2, - 1 / 2, 1 / 4]
        (demo_nearly_full\<lparr>is_sending_voice := False\<rparr>) =
       Some (2,
         demo_nearly_full\<lparr>is_sending_voice := False,
           send_buffer := replicate 1598 0 @ [- 32767, 32767],
           send_buffer_cnt := 1600\<rparr>)
   \<and> sint (sample_to_short (- 1 / 2)) = - 16383
   \<and> sint (sample_to_short (1 / 4)) = 8191
   \<and> sint (sample_to_short (- 2)) = - 32767"
proof -
  let ?xs = "[- 2, 3 / 2, - 1 / 2, 1 / 4] :: real list"
  have h: "state demo_nearly_full = STATE_LOGGED_IN" "buffer_ok demo_params demo_nearly_full"
    "0 < BUFFER_SIZE demo_params"
    by (simp_all add: demo_nearly_full_def demo_logged_in_def demo_qso_def demo_consts
          buffer_ok_def)
  have h': "state (demo_nearly_full\<lparr>is_sending_voice := False\<rparr>) = STATE_LOGGED_IN"
    "buffer_ok demo_params (demo_nearly_full\<lparr>is_sending_voice := False\<rparr>)"
    using h by (simp_all add: buffer_ok_def)
  have e: "is_sending_voice demo_nearly_full" "send_buffer_cnt demo_nearly_full = 1598"
    "send_buffer demo_nearly_full = replicate 1600 0" "gsmh demo_nearly_full = False"
    "trace demo_nearly_full = []" "tcp_connected demo_nearly_full"
    by (simp_all add: demo_nearly_full_def demo_logged_in_def demo_qso_def)
  have conv: "sample_to_short (- 2) = - 32767" "sample_to_short (3 / 2) = 32767"
    "sample_to_short (- (1 / 2)) = - 16383" "sample_to_short (1 / 4) = 8191"
    by (simp_all add: sample_to_short_def trunc_toward_zero_def)
  have stream: "take (nat (send_buffer_cnt demo_nearly_full)) (send_buffer demo_nearly_full)
      @ map sample_to_short ?xs
      = (replicate 1598 0 @ [- 32767, 32767]) @ [- 16383, 8191]"
    by (simp add: e conv)
  have chunks: "full_chunks (nat (BUFFER_SIZE demo_params))
      ((replicate 1598 0 @ [- 32767, 32767 :: short]) @ [- 16383, 8191])
      = [replicate 1598 0 @ [- 32767, 32767]]"
    by (subst full_chunks_append) (simp_all add: demo_consts full_chunks_short)
  have md: "length ((replicate 1598 (0 :: short) @ [- 32767, 32767]) @ [- 16383, 8191])
      mod nat (BUFFER_SIZE demo_params) = 2"
    by (simp add: demo_consts)
  have dr: "drop (length ((replicate 1598 (0 :: short) @ [- 32767, 32767]) @ [- 16383, 8191]) - 2)
      ((replicate 1598 0 @ [- 32767, 32767]) @ [- 16383, 8191]) = [- 16383, 8191]"
    by simp
  note r = writeSamples_clamps [OF h, of ?xs]
  from r [THEN conjunct2, THEN conjunct1] e(1)
  obtain b' where
    "writeSamples demo_params ?xs demo_nearly_full =
          Some (int (length ?xs),
            demo_nearly_full\<lparr>send_buffer := b',
              gsmh := foldl (voice_handle demo_params) (gsmh demo_nearly_full)
                (full_chunks (nat (BUFFER_SIZE demo_params))
                   (take (nat (send_buffer_cnt demo_nearly_full)) (send_buffer demo_nearly_full)
                    @ map sample_to_short ?xs)),
              send_buffer_cnt :=
                int (length (take (nat (send_buffer_cnt demo_nearly_full))
                               (send_buffer demo_nearly_full)
                             @ map sample_to_short ?xs)
                     mod nat (BUFFER_SIZE demo_params)),
              trace := trace demo_nearly_full
                @ payload_writes demo_params (tcp_connected demo_nearly_full)
                    (gsmh demo_nearly_full)
                    (full_chunks (nat (BUFFER_SIZE demo_params))
                       (take (nat (send_buffer_cnt demo_nearly_full))
                          (send_buffer demo_nearly_full)
                        @ map sample_to_short ?xs))\<rparr>)"
    and "length b' = nat (BUFFER_SIZE demo_params)"
    and "take (length (take (nat (send_buffer_cnt demo_nearly_full))
                         (send_buffer demo_nearly_full)
                       @ map sample_to_short ?xs)
               mod nat (BUFFER_SIZE demo_params)) b'
          = drop (length (take (nat (send_buffer_cnt demo_nearly_full))
                            (send_buffer demo_nearly_full)
                          @ map sample_to_short ?xs)
                  - length (take (nat (send_buffer_cnt demo_nearly_full))
                              (send_buffer demo_nearly_full)
                            @ map sample_to_short ?xs)
                    mod nat (BUFFER_SIZE demo_params))
              (take (nat (send_buffer_cnt demo_nearly_full)) (send_buffer demo_nearly_full)
               @ map sample_to_short ?xs)"
    by blast
  then have a: "\<exists>b'. writeSamples demo_params ?xs demo_nearly_full =
          Some (4,
            demo_nearly_full\<lparr>send_buffer := b',
              gsmh := voice_handle demo_params False (replicate 1598 0 @ [- 32767, 32767]),
              send_buffer_cnt := 2,
              trace :=
                [TcpWrite (''TX1'' @ [CHR 0x0A]),
                 TcpWrite (voice_payload demo_params False
                             (replicate 1598 0 @ [- 32767, 32767]))]\<rparr>)
        \<and> length b' = 1600
        \<and> take 2 b' = [- 16383, 8191]"
    unfolding stream chunks md dr
    by (intro exI [of _ b']) (simp add: e demo_consts)
  from writeSamples_clamps [OF h' h(3), of ?xs, THEN conjunct1]
  have b: "writeSamples demo_params ?xs (demo_nearly_full\<lparr>is_sending_voice := False\<rparr>) =
       Some (2,
         demo_nearly_full\<lparr>is_sending_voice := False,
           send_buffer := replicate 1598 0 @ [- 32767, 32767],
           send_buffer_cnt := 1600\<rparr>)"
    by (simp add: e demo_consts conv)
  have c: "sint (sample_to_short (- 1 / 2)) = - 16383" "sint (sample_to_short (1 / 4)) = 8191"
    "sint (sample_to_short (- 2)) = - 32767"
    using r [THEN conjunct2, THEN conjunct2, THEN conjunct2, of "- 1 / 2"]
      r [THEN conjunct2, THEN conjunct2, THEN conjunct2, of "1 / 4"]
      r [THEN conjunct2, THEN conjunct2, THEN conjunct2, of "- 2"]
    by simp_all
  from h e(1,2) a b c show ?thesis by blast
qed

text \<open>
  Claim C7 as stated fails: the samples -2 and -1 are at most -1, and are stored as
  -32767, not as the most negative 16-bit value \<open>-2^15\<close>.
\<close>

theorem clamp_negative_counterexample:
  "(- 2 :: real) \<le> - 1 \<and> sint (sample_to_short (- 2)) \<noteq> - (2 ^ 15)
   \<and> sint (sample_to_short (- 2)) = - 32767
   \<and> (- 1 :: real) \<le> - 1 \<and> sint (sample_to_short (- 1)) \<noteq> - (2 ^ 15)"
  by (simp add: sample_to_short_def trunc_toward_zero_def)

section \<open>Login handshake\<close>

text \<open>
  Claim C8. On a successful connect \<open>onConnected\<close> makes exactly one transport
  write, the login message: the prefix \<open>CT:\<close>, then the identity fields as tagged
  segments in the order version, e-mail address, password, callsign and user, client
  type, band and channel, description, country, city, net, then a line break (the one byte \<open>0x0A\<close>). The first
  inbound message after it, whatever its content, moves the session from
  \<open>LoggingIn\<close> to \<open>LoggingIn2\<close>; the second moves it to \<open>LoggedIn\<close>, arms the
  keep-alive timer and sends the token \<open>RX0\<close>, itself ended by the byte \<open>0x0A\<close>.
\<close>

theorem login_sequence:
  assumes "tcp_connected s"
  shows "state (onConnected s) = STATE_LOGGING_IN
    \<and> connect_retry_cnt (onConnected s) = 0
    \<and> con_timeout_enabled (onConnected s)
    \<and> trace (onConnected s) =
        trace s
        @ (if state s = STATE_CONNECTED then [] else [StateChange STATE_CONNECTED])
        @ [StateChange STATE_LOGGING_IN,
           TcpWrite (''CT:''
             @ ''<VX>'' @ opt_version s @ ''</VX>''
             @ ''<EA>'' @ opt_email_address s @ ''</EA>''
             @ ''<PW>'' @ opt_dyn_password s @ ''</PW>''
             @ ''<ON>'' @ opt_callsign_and_user s @ ''</ON>''
             @ ''<CL>'' @ opt_client_type s @ ''</CL>''
             @ ''<BC>'' @ opt_band_and_channel s @ ''</BC>''
             @ ''<DS>'' @ opt_description s @ ''</DS>''
             @ ''<NN>'' @ opt_country s @ ''</NN>''
             @ ''<CT>'' @ opt_city_city_part s @ ''</CT>''
             @ ''<NT>'' @ opt_net s @ ''</NT>''
             @ [CHR 0x0A])]
    \<and> state (snd (onDataReceived p d1 (onConnected s))) = STATE_LOGGING_IN_2
    \<and> trace (snd (onDataReceived p d1 (onConnected s))) =
        trace (onConnected s) @ [ConTimeoutReset, StateChange STATE_LOGGING_IN_2]
    \<and> state (snd (onDataReceived p d2 (snd (onDataReceived p d1 (onConnected s)))))
        = STATE_LOGGED_IN
    \<and> keep_alive_enabled (snd (onDataReceived p d2 (snd (onDataReceived p d1 (onConnected s)))))
    \<and> trace (snd (onDataReceived p d2 (snd (onDataReceived p d1 (onConnected s))))) =
        trace (onConnected s)
        @ [ConTimeoutReset, StateChange STATE_LOGGING_IN_2,
           ConTimeoutReset, StateChange STATE_LOGGED_IN,
           TcpWrite (''RX0'' @ [CHR 0x0A])]"
  using assms
  by (simp add: onConnected_def login_def login_message_def onDataReceived_def
        sendRequest_def setState_def emit_def Let_def newline_def)

text \<open>The handshake of the concrete session.\<close>

theorem login_sequence_witness:
  "tcp_connected (demo_qso\<lparr>tcp_connected := True, state := STATE_CONNECTING\<rparr>)
   \<and> state (snd (onDataReceived demo_params ''anything''
        (snd (onDataReceived demo_params ''2014000''
          (onConnected (demo_qso\<lparr>tcp_connected := True, state := STATE_CONNECTING\<rparr>))))))
       = STATE_LOGGED_IN
   \<and> trace (snd (onDataReceived demo_params ''anything''
        (snd (onDataReceived demo_params ''2014000''
          (onConnected (demo_qso\<lparr>tcp_connected := True, state := STATE_CONNECTING\<rparr>)))))) =
       [StateChange STATE_CONNECTED, StateChange STATE_LOGGING_IN,
        TcpWrite (''CT:<VX>2014000</VX><EA>op@example.org</EA><PW>secret</PW>''
          @ ''<ON>N0CALL, Op</ON><CL>Crosslink</CL><BC>446.00625FM CTC88.5</BC>''
          @ ''<DS>Gateway</DS><NN>Sweden</NN><CT>Stockholm - Center</CT><NT>Test</NT>''
          @ [CHR 0x0A]),
        ConTimeoutReset, StateChange STATE_LOGGING_IN_2,
        ConTimeoutReset, StateChange STATE_LOGGED_IN,
        TcpWrite (''RX0'' @ [CHR 0x0A])]"
proof -
  let ?s = "demo_qso\<lparr>tcp_connected := True, state := STATE_CONNECTING\<rparr>"
  have h: "tcp_connected ?s" by simp
  note r = login_sequence [OF h, of demo_params "''2014000''" "''anything''"]
  have t: "trace (onConnected ?s) =
       [StateChange STATE_CONNECTED, StateChange STATE_LOGGING_IN,
        TcpWrite (''CT:<VX>2014000</VX><EA>op@example.org</EA><PW>secret</PW>''
          @ ''<ON>N0CALL, Op</ON><CL>Crosslink</CL><BC>446.00625FM CTC88.5</BC>''
          @ ''<DS>Gateway</DS><NN>Sweden</NN><CT>Stockholm - Center</CT><NT>Test</NT>''
          @ [CHR 0x0A])]"
    using r [THEN conjunct2, THEN conjunct2, THEN conjunct2, THEN conjunct1]
    by (simp add: demo_qso_def)
  from r t h show ?thesis by simp
qed

section \<open>Reachable sessions\<close>

text \<open>
  The theorems above take the open transport and the shape of the send buffer as
  hypotheses on the session. Every session the events can produce satisfies them:
  while the session is logged in (or logging in) the transport is open, and the fill
  count stays within the \<open>BUFFER_SIZE\<close> samples of the buffer.
\<close>

lemma session_inv_frame:
  assumes "session_inv p s"
    and "send_buffer_cnt s' = send_buffer_cnt s" and "send_buffer s' = send_buffer s"
    and "online (state s') \<Longrightarrow> tcp_connected s'"
  shows "session_inv p s'"
  using assms by (simp add: session_inv_def buffer_ok_def)

lemma setState_fields:
  "state (setState n s) = n"
  "tcp_connected (setState n s) = tcp_connected s"
  "send_buffer_cnt (setState n s) = send_buffer_cnt s"
  "send_buffer (setState n s) = send_buffer s"
  by (simp_all add: setState_def emit_def)

lemma sendRequest_fields:
  "state (sendRequest rq s) = state s"
  "tcp_connected (sendRequest rq s) = tcp_connected s"
  "send_buffer_cnt (sendRequest rq s) = send_buffer_cnt s"
  "send_buffer (sendRequest rq s) = send_buffer s"
  by (simp_all add: sendRequest_def emit_def)

lemma connect_fields:
  "state (connect s) = STATE_CONNECTING"
  "tcp_connected (connect s) = tcp_connected s"
  "send_buffer_cnt (connect s) = send_buffer_cnt s"
  "send_buffer (connect s) = send_buffer s"
  by (simp_all add: connect_def Let_def emit_def setState_fields)

lemma disconnect_fields:
  "state (disconnect s) = STATE_DISCONNECTED"
  "send_buffer_cnt (disconnect s) = send_buffer_cnt s"
  "send_buffer (disconnect s) = send_buffer s"
  by (simp_all add: disconnect_def tcp_client_disconnect_def Let_def emit_def setState_fields)

lemma reconnect_fields:
  "\<not> online (state (reconnect p s))"
  "send_buffer_cnt (reconnect p s) = send_buffer_cnt s"
  "send_buffer (reconnect p s) = send_buffer s"
  by (simp_all add: reconnect_def Let_def connect_fields setState_fields)

lemma onDisconnected_fields:
  "\<not> online (state (onDisconnected p reason s))"
  "send_buffer_cnt (onDisconnected p reason s) = send_buffer_cnt s"
  "send_buffer (onDisconnected p reason s) = send_buffer s"
  by (cases reason; simp add: onDisconnected_def Let_def reconnect_fields setState_fields)+

lemma onConnected_fields:
  "tcp_connected (onConnected s) = tcp_connected s"
  "send_buffer_cnt (onConnected s) = send_buffer_cnt s"
  "send_buffer (onConnected s) = send_buffer s"
  by (simp_all add: onConnected_def login_def Let_def emit_def setState_fields)

lemma squelchOpen_fields:
  "state (squelchOpen is_open s) = state s"
  "tcp_connected (squelchOpen is_open s) = tcp_connected s"
  "send_buffer_cnt (squelchOpen is_open s) = send_buffer_cnt s"
  "send_buffer (squelchOpen is_open s) = send_buffer s"
  by (simp_all add: squelchOpen_def sendRequest_fields)

lemma onKeepaliveTimeout_fields:
  "state (onKeepaliveTimeout s) = state s"
  "tcp_connected (onKeepaliveTimeout s) = tcp_connected s"
  "send_buffer_cnt (onKeepaliveTimeout s) = send_buffer_cnt s"
  "send_buffer (onKeepaliveTimeout s) = send_buffer s"
  by (simp_all add: onKeepaliveTimeout_def sendRequest_fields)

lemma fill_fields:
  "fst (fill n samples sr s) = sr + int n
   \<and> send_buffer_cnt (snd (fill n samples sr s)) = send_buffer_cnt s + int n
   \<and> length (send_buffer (snd (fill n samples sr s))) = length (send_buffer s)
   \<and> state (snd (fill n samples sr s)) = state s
   \<and> tcp_connected (snd (fill n samples sr s)) = tcp_connected s"
  by (induction n arbitrary: sr s) simp_all

lemma fill_inv:
  assumes "buffer_ok p s" and "0 \<le> sr" and "sr \<le> int (length samples)"
    and "n = nat (min (BUFFER_SIZE p - send_buffer_cnt s) (int (length samples) - sr))"
    and "fill n samples sr s = (sr1, s1)"
  shows "buffer_ok p s1 \<and> 0 \<le> sr1 \<and> sr1 \<le> int (length samples)
     \<and> state s1 = state s \<and> tcp_connected s1 = tcp_connected s"
proof -
  from fill_fields [of n samples sr s] assms(5)
  have f: "sr1 = sr + int n" "send_buffer_cnt s1 = send_buffer_cnt s + int n"
    "length (send_buffer s1) = length (send_buffer s)"
    "state s1 = state s" "tcp_connected s1 = tcp_connected s"
    by simp_all
  from assms(1) have b: "0 \<le> send_buffer_cnt s" "send_buffer_cnt s \<le> BUFFER_SIZE p"
    "length (send_buffer s) = nat (BUFFER_SIZE p)"
    by (simp_all add: buffer_ok_def)
  from assms(2-4) b(2) have n: "int n \<le> BUFFER_SIZE p - send_buffer_cnt s"
    "int n \<le> int (length samples) - sr"
    by linarith+
  from f b n assms(2) show ?thesis
    unfolding buffer_ok_def by simp
qed

lemma sendVoiceData_inv:
  assumes "sendVoiceData p s = Some s2" and "buffer_ok p s"
  shows "buffer_ok p s2 \<and> state s2 = state s \<and> tcp_connected s2 = tcp_connected s"
proof -
  from assms(1) have c: "send_buffer_cnt s = BUFFER_SIZE p"
    by (simp add: sendVoiceData_def split: if_splits)
  from assms(1) sendVoiceData_full [OF c]
  have "s2 = s\<lparr>gsmh := voice_handle p (gsmh s) (send_buffer s),
             send_buffer_cnt := 0,
             trace := trace s
               @ (if tcp_connected s then [TcpWrite (''TX1'' @ newline)] else [])
               @ [TcpWrite (voice_payload p (gsmh s) (send_buffer s))]\<rparr>"
    by simp
  with assms(2) show ?thesis by (simp add: buffer_ok_def)
qed

lemma writeSamples_loop_inv:
  assumes "writeSamples_loop p samples sr s = Some y"
  shows "buffer_ok p s \<and> 0 \<le> sr \<and> sr \<le> int (length samples) \<longrightarrow>
     buffer_ok p (snd y) \<and> state (snd y) = state s
     \<and> tcp_connected (snd y) = tcp_connected s"
  using assms
proof (induction p samples sr s y
    rule: writeSamples_loop.raw_induct [rotated 1, consumes 1, case_names step])
  case (step loop p samples sr s y)
  show ?case
  proof (intro impI)
    assume pre: "buffer_ok p s \<and> 0 \<le> sr \<and> sr \<le> int (length samples)"
    show "buffer_ok p (snd y) \<and> state (snd y) = state s
      \<and> tcp_connected (snd y) = tcp_connected s"
    proof (cases "sr < int (length samples)")
      case False
      with step.hyps have "y = (sr, s)" by simp
      with pre show ?thesis by simp
    next
      case True
      let ?n = "nat (min (BUFFER_SIZE p - send_buffer_cnt s) (int (length samples) - sr))"
      obtain sr1 s1 where f: "fill ?n samples sr s = (sr1, s1)"
        by (cases "fill ?n samples sr s") auto
      from fill_inv [OF _ _ _ refl f] pre
      have i1: "buffer_ok p s1" "0 \<le> sr1" "sr1 \<le> int (length samples)"
        "state s1 = state s" "tcp_connected s1 = tcp_connected s"
        by simp_all
      show ?thesis
      proof (cases "send_buffer_cnt s1 = BUFFER_SIZE p")
        case full: True
        show ?thesis
        proof (cases "is_sending_voice s1")
          case True
          with step.hyps \<open>sr < int (length samples)\<close> f full
          obtain s2 where v: "sendVoiceData p s1 = Some s2"
            and l: "loop p samples sr1 s2 = Some y"
            by (auto simp: bind_eq_Some_conv)
          from sendVoiceData_inv [OF v i1(1)] step.IH [OF l] i1 show ?thesis by simp
        next
          case False
          with step.hyps \<open>sr < int (length samples)\<close> f full have "y = (sr1, s1)" by simp
          with i1 show ?thesis by simp
        qed
      next
        case False
        with step.hyps \<open>sr < int (length samples)\<close> f
        have "loop p samples sr1 s1 = Some y" by simp
        from step.IH [OF this] i1 show ?thesis by simp
      qed
    qed
  qed
qed

lemma writeSamples_inv:
  assumes "writeSamples p samples s = Some (n, s')" and "session_inv p s"
  shows "session_inv p s'"
proof (cases "state s = STATE_LOGGED_IN")
  case True
  with assms(1) have "writeSamples_loop p samples 0 s = Some (n, s')"
    by (simp add: writeSamples_def)
  from writeSamples_loop_inv [OF this] assms(2) show ?thesis
    by (simp add: session_inv_def)
next
  case False
  with assms show ?thesis by (simp add: writeSamples_def)
qed

lemma flushSamples_inv:
  assumes "flushSamples p s = Some s'" and "session_inv p s"
  shows "session_inv p s'"
proof (cases "state s = STATE_LOGGED_IN \<and> 0 < send_buffer_cnt s")
  case True
  then have "state s = STATE_LOGGED_IN" "0 < send_buffer_cnt s" by simp_all
  from flushSamples_partial [OF this, of p] assms(1)
  have "state s' = state s" "tcp_connected s' = tcp_connected s" "send_buffer_cnt s' = 0"
    "length (send_buffer s') = length (zero_pad (send_buffer s) (send_buffer_cnt s))"
    by auto
  with assms(2) show ?thesis
    by (auto simp: session_inv_def buffer_ok_def zero_pad_def)
next
  case False
  then have "state s \<noteq> STATE_LOGGED_IN \<or> send_buffer_cnt s \<le> 0" by auto
  from flushSamples_idle [OF this, of p] assms(1)
  have "s' = s\<lparr>trace := trace s @ [SourceAllSamplesFlushed]\<rparr>" by simp
  with assms(2) show ?thesis
    by (simp add: session_inv_def buffer_ok_def)
qed

lemma decode_frames_fields:
  "send_buffer_cnt (foldl (decode_frame p data) s ks) = send_buffer_cnt s
   \<and> send_buffer (foldl (decode_frame p data) s ks) = send_buffer s
   \<and> state (foldl (decode_frame p data) s ks) = state s
   \<and> tcp_connected (foldl (decode_frame p data) s ks) = tcp_connected s"
  by (induction ks arbitrary: s)
     (simp_all add: decode_frame_def emit_def Let_def split: prod.splits)

lemma handleResponse_fields:
  "send_buffer_cnt (handleResponse p cmd data s) = send_buffer_cnt s"
  "send_buffer (handleResponse p cmd data s) = send_buffer s"
  "state (handleResponse p cmd data s) = state s"
  "tcp_connected (handleResponse p cmd data s) = tcp_connected s"
  by (cases cmd; simp add: handleAudioData_def decode_frames_fields emit_def)+

lemma onDataReceived_fields:
  "send_buffer_cnt (snd (onDataReceived p data s)) = send_buffer_cnt s"
  "send_buffer (snd (onDataReceived p data s)) = send_buffer s"
  "tcp_connected (snd (onDataReceived p data s)) = tcp_connected s"
  by (cases "state s";
      simp add: onDataReceived_def Let_def emit_def setState_fields sendRequest_fields
        handleResponse_fields)+

lemma reachable_session_inv:
  assumes "0 \<le> BUFFER_SIZE p"
  shows "reachable p s \<Longrightarrow> session_inv p s"
proof (induction rule: reachable.induct)
  case (constructed s)
  with assms show ?case by (simp add: initial_def session_inv_def buffer_ok_def)
next
  case (call_connect s)
  show ?case
    by (rule session_inv_frame [OF call_connect.IH]) (simp_all add: connect_fields)
next
  case (call_disconnect s)
  show ?case
    by (rule session_inv_frame [OF call_disconnect.IH]) (simp_all add: disconnect_fields)
next
  case (call_writeSamples s samples n s')
  then show ?case using writeSamples_inv by blast
next
  case (call_flushSamples s s')
  then show ?case using flushSamples_inv by blast
next
  case (call_squelchOpen s is_open)
  show ?case
    by (rule session_inv_frame [OF call_squelchOpen.IH])
       (use call_squelchOpen.IH in
         \<open>simp_all add: squelchOpen_fields session_inv_def\<close>)
next
  case (tcp_connected s)
  show ?case
    by (rule session_inv_frame [OF tcp_connected.IH]) (simp_all add: onConnected_fields)
next
  case (tcp_disconnected s reason)
  show ?case
    by (rule session_inv_frame [OF tcp_disconnected.IH]) (simp_all add: onDisconnected_fields)
next
  case (tcp_dataReceived s data)
  show ?case
    by (rule session_inv_frame [OF tcp_dataReceived.IH])
       (use tcp_dataReceived.hyps in \<open>simp_all add: onDataReceived_fields\<close>)
next
  case (keep_alive_expired s)
  show ?case
    by (rule session_inv_frame [OF keep_alive_expired.IH])
       (use keep_alive_expired.IH in
         \<open>simp_all add: onKeepaliveTimeout_fields session_inv_def\<close>)
next
  case (con_timeout_expired s)
  show ?case
    by (rule session_inv_frame [OF con_timeout_expired.IH])
       (simp_all add: onConnectTimeout_def reconnect_fields disconnect_fields)
qed

corollary logged_in_session_ok:
  assumes "reachable p s" and "0 \<le> BUFFER_SIZE p" and "state s = STATE_LOGGED_IN"
  shows "tcp_connected s \<and> buffer_ok p s"
  using reachable_session_inv [OF assms(2,1)] assms(3) by (simp add: session_inv_def)

end
